theory Spec2Isabelle
  imports Main "HOL-Library.Sublist" "HOL-Library.Word"
begin

section \<open>Byte strings and the Go string helpers used by the proxy\<close>

text \<open>
  A Go \<^verbatim>\<open>string\<close> is a sequence of bytes; it is modelled as \<^typ>\<open>string\<close>
  (a list of 8-bit characters). The helpers below are the functions of the Go
  packages \<^verbatim>\<open>strings\<close> and \<^verbatim>\<open>strconv\<close> that the proxy server calls,
  restricted to the arguments the proxy passes to them.
\<close>

abbreviation CR :: char where "CR \<equiv> CHR 0x0D"
abbreviation LF :: char where "LF \<equiv> CHR 0x0A"
abbreviation SP :: char where "SP \<equiv> CHR 0x20"
abbreviation CRLF :: string where "CRLF \<equiv> [CR, LF]"

text \<open>The test \<^verbatim>\<open>(b >= 'a' && b <= 'z') || (b >= 'A' && b <= 'Z')\<close> on a byte.\<close>

definition isAlpha :: "char \<Rightarrow> bool" where
  "isAlpha b = (let n = (of_char b :: nat) in (97 \<le> n \<and> n \<le> 122) \<or> (65 \<le> n \<and> n \<le> 90))"

definition isDigit :: "char \<Rightarrow> bool" where
  "isDigit b = (let n = (of_char b :: nat) in 48 \<le> n \<and> n \<le> 57)"

text \<open>\<^verbatim>\<open>strings.HasPrefix\<close>, \<^verbatim>\<open>strings.HasSuffix\<close>, \<^verbatim>\<open>strings.Count\<close> with a
  one-byte pattern, \<^verbatim>\<open>strings.Replace(s, c, "", -1)\<close> with a one-byte pattern.\<close>

definition HasPrefix :: "string \<Rightarrow> string \<Rightarrow> bool" where
  "HasPrefix s p = (take (length p) s = p)"

definition HasSuffix :: "string \<Rightarrow> string \<Rightarrow> bool" where
  "HasSuffix s p = (length p \<le> length s \<and> drop (length s - length p) s = p)"

definition Count :: "string \<Rightarrow> char \<Rightarrow> nat" where
  "Count s c = length (filter (\<lambda>b. b = c) s)"

definition Remove :: "string \<Rightarrow> char \<Rightarrow> string" where
  "Remove s c = filter (\<lambda>b. b \<noteq> c) s"

text \<open>\<^verbatim>\<open>strings.Contains\<close>: the pattern occurs at some position.\<close>

fun Contains :: "string \<Rightarrow> string \<Rightarrow> bool" where
  "Contains [] p = (p = [])"
| "Contains (b # s) p = (HasPrefix (b # s) p \<or> Contains s p)"

text \<open>\<^verbatim>\<open>strings.Trim(s, "\r\n")\<close>: leading and trailing CR and LF bytes are cut.\<close>

definition isCRLF :: "char \<Rightarrow> bool" where
  "isCRLF b = (b = CR \<or> b = LF)"

definition Trim :: "string \<Rightarrow> string" where
  "Trim s = rev (dropWhile isCRLF (rev (dropWhile isCRLF s)))"

text \<open>
  \<^verbatim>\<open>strings.SplitN(s, sep, 2)\<close> for a non-empty separator: the string is cut at the
  first occurrence of the separator; without an occurrence the result is the
  one-element slice holding \<^verbatim>\<open>s\<close>.
\<close>

fun cutFirst :: "string \<Rightarrow> string \<Rightarrow> (string \<times> string) option" where
  "cutFirst [] sep = None"
| "cutFirst (b # s) sep =
     (if HasPrefix (b # s) sep then Some ([], drop (length sep) (b # s))
      else (case cutFirst s sep of
              None \<Rightarrow> None
            | Some (before, after) \<Rightarrow> Some (b # before, after)))"

definition SplitN2 :: "string \<Rightarrow> string \<Rightarrow> string list" where
  "SplitN2 s sep = (case cutFirst s sep of None \<Rightarrow> [s] | Some (before, after) \<Rightarrow> [before, after])"

text \<open>
  The Go conversion \<^verbatim>\<open>string(b)\<close> of a byte: the UTF-8 encoding of the code
  point with that number, one byte below 128 and two bytes from 128 on.
\<close>

definition stringOfByte :: "char \<Rightarrow> string" where
  "stringOfByte b =
     (let n = (of_char b :: nat)
      in if n < 128 then [b] else [char_of (192 + n div 64), char_of (128 + n mod 64)])"

text \<open>\<^verbatim>\<open>strconv.Itoa\<close> on a non-negative number: its decimal digits.\<close>

fun Itoa :: "nat \<Rightarrow> string" where
  "Itoa n = (if n < 10 then [char_of (48 + n)] else Itoa (n div 10) @ [char_of (48 + n mod 10)])"

declare Itoa.simps [simp del]

text \<open>\<^verbatim>\<open>strings.ReplaceAll(s, ".", ",")\<close>.\<close>

definition dotsToCommas :: "string \<Rightarrow> string" where
  "dotsToCommas s = map (\<lambda>b. if b = CHR ''.'' then CHR '','' else b) s"

text \<open>\<^verbatim>\<open>strings.ToUpper\<close> on the ASCII letters.\<close>

definition ToUpper :: "string \<Rightarrow> string" where
  "ToUpper s = map (\<lambda>b. let n = (of_char b :: nat) in if 97 \<le> n \<and> n \<le> 122 then char_of (n - 32) else b) s"

section \<open>Reply codes and commands\<close>

text \<open>
  \<^verbatim>\<open>getCode\<close> splits a reply line: for a line of at least four bytes the
  trimmed line is cut at the first occurrence of the line's fourth byte.
\<close>

definition getCode :: "string \<Rightarrow> string list" where
  "getCode line =
     (if 4 \<le> length line then SplitN2 (Trim line) (stringOfByte (line ! 3)) else [line])"

text \<open>
  Modelled from the spec: \<^verbatim>\<open>getCommand\<close> is called by \<^verbatim>\<open>sendTLSCommand\<close> and
  \<^verbatim>\<open>commandLog\<close> but is declared in a file that is not part of the sources.
  The specification says that command parsing splits on ASCII whitespace, the
  verb being the first token and the argument the remainder.
\<close>

definition isSpace :: "char \<Rightarrow> bool" where
  "isSpace b = (b = SP \<or> b = CHR 0x09 \<or> b = LF \<or> b = CHR 0x0B \<or> b = CHR 0x0C \<or> b = CR)"

definition getCommand :: "string \<Rightarrow> string list" where
  "getCommand line =
     (let verb = takeWhile (\<lambda>b. \<not> isSpace b) line
      in [verb, drop (Suc (length verb)) line])"

section \<open>Command-line validation\<close>

datatype error =
    WrongCommandLine
  | WriteError
  | FlushError
  | SendAuthFailed
  | MakeTLSFailed
  | NoTLSSupport string
  | UserIdNotFound
  | AlreadySwitched
  | DialError
  | LookupError
  | CannotConnectNewOrigin
  | ReadError

text \<open>
  The first loop of \<^verbatim>\<open>commandLineCheck\<close>: bytes are dropped from the front
  until the line starts with a letter; an empty line aborts the check.
\<close>

fun stripLeading :: "string \<Rightarrow> string option" where
  "stripLeading [] = None"
| "stripLeading (b # line) = (if isAlpha b then Some (b # line) else stripLeading line)"

definition commandLineCheck :: "string \<Rightarrow> error + string" where
  "commandLineCheck line =
     (case stripLeading line of
        None \<Rightarrow> Inl WrongCommandLine
      | Some l \<Rightarrow>
          if \<not> HasSuffix l CRLF \<or> Count l CR \<noteq> 1 \<or> Count l LF \<noteq> 1
          then Inr (Remove (Remove l LF) CR @ CRLF)
          else Inr l)"

section \<open>Connections, configuration and the proxy server state\<close>

text \<open>
  A network connection as the proxy sees it: the bytes the peer will deliver
  (\<open>incoming\<close>; once they are used up a read fails), the bytes the proxy has
  written and flushed (\<open>sent\<close>), whether a write to or a flush of the buffered
  writer on the connection fails, whether the connection was closed, the TCP
  tunings and the TLS client configuration wrapped around it, if any.
\<close>

record tlsConfig =
  InsecureSkipVerify :: bool
  MinVersion :: "16 word"
  MaxVersion :: "16 word"

record conn =
  remoteAddr :: string
  incoming :: string
  sent :: string
  writeFails :: bool
  flushFails :: bool
  closed :: bool
  keepAlive :: bool
  keepAlivePeriod :: int
  linger :: "int option"
  tlsClient :: "tlsConfig option"

text \<open>
  Modelled from the spec: the fields of \<^verbatim>\<open>config\<close> that the proxy server reads
  (\<^verbatim>\<open>ProxyProtocol\<close>, \<^verbatim>\<open>DataChanProxy\<close>, \<^verbatim>\<open>MasqueradeIP\<close>, \<^verbatim>\<open>WelcomeMsg\<close>,
  \<^verbatim>\<open>KeepaliveTime\<close>) are missing from the declaration of the type in the
  sources; they are the configuration options \<^verbatim>\<open>proxy_protocol\<close>,
  \<^verbatim>\<open>data_chan_proxy\<close>, \<^verbatim>\<open>masquerade_ip\<close>, \<^verbatim>\<open>welcome_msg\<close> and
  \<^verbatim>\<open>keepalive_time\<close> of the specification.
\<close>

record config =
  ProxyProtocol :: bool
  DataChanProxy :: bool
  MasqueradeIP :: string
  WelcomeMsg :: string
  KeepaliveTime :: int
  ProxyTimeout :: int

text \<open>
  Modelled from the spec: the type \<^verbatim>\<open>dataHandler\<close> and its methods are declared
  in a file that is not part of the sources. The record holds what the reply
  pump reads of it, the recorded client mode and the port of the client-side
  listener (\<open>None\<close> for a nil listener), and logs the calls the pump makes on
  it: the lines passed to \<^verbatim>\<open>parsePASVresponse\<close> and \<^verbatim>\<open>parseEPSVresponse\<close>, the
  number of calls of \<^verbatim>\<open>StartDataTransfer\<close>, and \<^verbatim>\<open>Close\<close>.
\<close>

record dataHandler =
  mode :: string
  listenerPort :: "nat option"
  inUse :: bool
  handlerClosed :: bool
  transfersStarted :: nat
  pasvResponses :: "string list"
  epsvResponses :: "string list"

datatype signal = StopSent | StopDone | SwitchResult bool

text \<open>
  \<^verbatim>\<open>proxyServer\<close>. \<open>origin\<close> is the connection behind \<^verbatim>\<open>originReader\<close> and
  \<^verbatim>\<open>originWriter\<close>, \<open>originNil\<close> says that the field \<^verbatim>\<open>origin\<close> holds nil
  (after a failed dial). \<open>clientOut\<close> lists the buffers handed to the client
  writer, \<open>signals\<close> the operations performed on the channels \<^verbatim>\<open>stopChan\<close>,
  \<^verbatim>\<open>stopChanDone\<close> and \<^verbatim>\<open>waitSwitching\<close>, and \<open>pumpRunning\<close> says that a
  reply pump is waiting in its select loop, ready to take a stop signal.
\<close>

record proxyServer =
  origin :: conn
  originNil :: bool
  passThrough :: bool
  stop :: bool
  isSwitched :: bool
  welcomeMsg :: string
  config :: config
  dataConnector :: "dataHandler option"
  isDataCommandResponse :: bool
  clientOut :: "string list"
  pumpRunning :: bool
  signals :: "signal list"

section \<open>Sending a command line to origin\<close>

text \<open>
  \<^verbatim>\<open>originWriter.WriteString(line)\<close> followed by \<^verbatim>\<open>originWriter.Flush()\<close>: the
  line reaches origin when both succeed. Flushing to a closed connection fails.
\<close>

definition writeOrigin :: "proxyServer \<Rightarrow> string \<Rightarrow> error option \<times> proxyServer" where
  "writeOrigin s line =
     (let c = origin s
      in if writeFails c then (Some WriteError, s)
         else if flushFails c \<or> closed c then (Some FlushError, s)
         else (None, s\<lparr>origin := c\<lparr>sent := sent c @ line\<rparr>\<rparr>))"

text \<open>\<^verbatim>\<open>sendToOrigin\<close>; the call of \<^verbatim>\<open>commandLog\<close> only writes to the log.\<close>

definition sendToOrigin :: "proxyServer \<Rightarrow> string \<Rightarrow> error option \<times> proxyServer" where
  "sendToOrigin s line =
     (case commandLineCheck line of
        Inl err \<Rightarrow> (Some err, s)
      | Inr checked \<Rightarrow> writeOrigin s checked)"

section \<open>Reading replies from origin\<close>

text \<open>
  \<^verbatim>\<open>ReadString('\n')\<close> on the bytes still to come: the line up to and including
  the first LF, and the bytes after it. Without an LF the read ends in an error
  (the data read with the error is discarded by every caller).
\<close>

fun ReadString :: "string \<Rightarrow> (string \<times> string) option" where
  "ReadString [] = None"
| "ReadString (b # bs) =
     (if b = LF then Some ([b], bs)
      else (case ReadString bs of
              None \<Rightarrow> None
            | Some (line, rest) \<Rightarrow> Some (b # line, rest)))"

definition readLine :: "conn \<Rightarrow> (string \<times> string) option" where
  "readLine c = (if closed c then None else ReadString (incoming c))"

section \<open>The reply pump\<close>

text \<open>
  The rewriting of data-command replies (the block guarded by
  \<^verbatim>\<open>s.config.DataChanProxy && s.isSwitched\<close>). The calls on the data handler
  are logged in it. \<open>None\<close> stands for the panic of dereferencing a nil data
  handler or a nil listener.
\<close>

definition pasvLine :: "string \<Rightarrow> nat \<Rightarrow> string" where
  "pasvLine ip listenPort =
     ''227 Entering Passive Mode ('' @ dotsToCommas ip @ '','' @ Itoa (listenPort div 256) @ '','' @
       Itoa (listenPort mod 256) @ '').'' @ CRLF"

definition epsvLine :: "nat \<Rightarrow> string" where
  "epsvLine listenPort = ''229 Entering Extended Passive Mode (|||'' @ Itoa listenPort @ ''|).'' @ CRLF"

definition dataRewrite :: "proxyServer \<Rightarrow> string \<Rightarrow> (proxyServer \<times> string) option" where
  "dataRewrite s buff =
     (if DataChanProxy (config s) \<and> isSwitched s then
        (let is227 = HasPrefix buff ''227 '';
             is229 = HasPrefix buff ''229 '';
             isPort = HasPrefix buff ''200 PORT command successful''
         in if is227 \<or> is229 \<or> isPort then
              (case dataConnector s of
                 None \<Rightarrow> None
               | Some d \<Rightarrow>
                   (let d1 = (if is227 then d\<lparr>pasvResponses := pasvResponses d @ [buff]\<rparr> else d);
                        d2 = (if is229 then d1\<lparr>epsvResponses := epsvResponses d1 @ [buff]\<rparr> else d1);
                        d3 = d2\<lparr>transfersStarted := Suc (transfersStarted d2)\<rparr>;
                        s' = s\<lparr>isDataCommandResponse := True, dataConnector := Some d3\<rparr>
                    in if mode d3 = ''PORT'' \<or> mode d3 = ''EPRT''
                       then Some (s', ''200 '' @ mode d3 @ '' command successful'' @ CRLF)
                       else if mode d3 = ''PASV''
                       then (case listenerPort d3 of
                               None \<Rightarrow> None
                             | Some p \<Rightarrow> Some (s', pasvLine (MasqueradeIP (config s)) p))
                       else if mode d3 = ''EPSV''
                       then (case listenerPort d3 of
                               None \<Rightarrow> None
                             | Some p \<Rightarrow> Some (s', epsvLine p))
                       else Some (s', buff)))
            else Some (s, buff))
      else Some (s, buff))"

text \<open>
  The inner loop of the multi-line handling: lines are read and appended until
  one has the opener's code and a space as fourth byte. The index expression
  \<^verbatim>\<open>res[3]\<close> is evaluated only when the codes are equal and panics on a line
  shorter than four bytes.
\<close>

datatype multiRead = MultiFailed | MultiPanic | MultiDone string string

lemma ReadString_length: "ReadString inp = Some (line, rest) \<Longrightarrow> length rest < length inp"
  by (induction inp arbitrary: line) (auto split: if_splits option.splits)

function readMulti :: "string \<Rightarrow> string \<Rightarrow> string \<Rightarrow> multiRead" where
  "readMulti code multiLine inp =
     (case ReadString inp of
        None \<Rightarrow> MultiFailed
      | Some (res, rest) \<Rightarrow>
          if hd (getCode res) = code
          then (if length res < 4 then MultiPanic
                else if res ! 3 = SP then MultiDone (multiLine @ res) rest
                else readMulti code (multiLine @ res) rest)
          else readMulti code (multiLine @ res) rest)"
  by pat_completeness auto

termination readMulti
  by (relation "measure (\<lambda>(code, multiLine, inp). length inp)") (auto dest: ReadString_length)

declare readMulti.simps [simp del]

lemma readMulti_length:
  "readMulti code multiLine inp = MultiDone block rest \<Longrightarrow> length rest < length inp"
proof (induction code multiLine inp rule: readMulti.induct)
  case (1 code multiLine inp)
  show ?case
  proof (cases "ReadString inp")
    case None
    with "1.prems" show ?thesis by (simp add: readMulti.simps [of code multiLine inp])
  next
    case (Some p)
    obtain res r where p: "p = (res, r)" by (cases p)
    have less: "length r < length inp" using Some p by (auto dest: ReadString_length)
    show ?thesis
    proof (cases "hd (getCode res) = code")
      case True
      show ?thesis
      proof (cases "length res < 4")
        case l: True
        with "1.prems" Some p True show ?thesis
          by (simp add: readMulti.simps [of code multiLine inp])
      next
        case l: False
        show ?thesis
        proof (cases "res ! 3 = SP")
          case True
          with "1.prems" Some p \<open>hd (getCode res) = code\<close> l less show ?thesis
            by (simp add: readMulti.simps [of code multiLine inp])
        next
          case False
          with "1.prems" Some p \<open>hd (getCode res) = code\<close> l
          have "readMulti code (multiLine @ res) r = MultiDone block rest"
            by (simp add: readMulti.simps [of code multiLine inp])
          with "1.IH"(1) [OF Some p [symmetric] \<open>hd (getCode res) = code\<close> l False]
          have "length rest < length r" by simp
          with less show ?thesis by simp
        qed
      qed
    next
      case False
      with "1.prems" Some p
      have "readMulti code (multiLine @ res) r = MultiDone block rest"
        by (simp add: readMulti.simps [of code multiLine inp])
      with "1.IH"(2) [OF Some p [symmetric] False]
      have "length rest < length r" by simp
      with less show ?thesis by simp
    qed
  qed
qed

text \<open>
  One pass through the body of the reader goroutine's loop. It ends the loop
  with a read error or a panic, or goes on with the next line. The deadline
  calls on the connection concern timing only and are left out. Handing the
  buffer to the writer half (\<^verbatim>\<open>read <- buff\<close>, \<^verbatim>\<open>to.WriteString(b)\<close>,
  \<^verbatim>\<open>to.Flush()\<close>, \<^verbatim>\<open>send <- struct{}{}\<close>) appends it to \<open>clientOut\<close>.
\<close>

datatype pumpEnd = ReadFailed | Panicked

datatype pumpStep = Ended pumpEnd proxyServer | Continue proxyServer

definition setIncoming :: "proxyServer \<Rightarrow> string \<Rightarrow> proxyServer" where
  "setIncoming s rest = s\<lparr>origin := (origin s)\<lparr>incoming := rest\<rparr>\<rparr>"

definition welcomeReplace :: "proxyServer \<Rightarrow> string \<Rightarrow> string" where
  "welcomeReplace s buff = (if hd (getCode buff) = ''220'' \<and> \<not> isSwitched s then welcomeMsg s else buff)"

definition deliver :: "proxyServer \<Rightarrow> string \<Rightarrow> proxyServer" where
  "deliver s buff = (if passThrough s then s\<lparr>clientOut := clientOut s @ [buff]\<rparr> else s)"

definition pumpOnce :: "proxyServer \<Rightarrow> pumpStep" where
  "pumpOnce s =
     (let s0 = s\<lparr>isDataCommandResponse := False\<rparr>
      in case readLine (origin s0) of
           None \<Rightarrow> Ended ReadFailed (setIncoming s0 [])
         | Some (line, rest) \<Rightarrow>
             (let s1 = setIncoming s0 rest;
                  buff = welcomeReplace s1 line
              in if ProxyProtocol (config s1) \<and> Contains buff ''500 PROXY'' then Continue s1
                 else (case dataRewrite s1 buff of
                         None \<Rightarrow> Ended Panicked s1
                       | Some (s2, buff2) \<Rightarrow>
                           if 4 \<le> length buff2 \<and> buff2 ! 3 = CHR ''-''
                           then (case readMulti (hd (getCode buff2)) buff2 (incoming (origin s2)) of
                                   MultiFailed \<Rightarrow> Ended ReadFailed (setIncoming s2 [])
                                 | MultiPanic \<Rightarrow> Ended Panicked s2
                                 | MultiDone multiLine rest2 \<Rightarrow>
                                     Continue (deliver (setIncoming s2 rest2) multiLine))
                           else Continue (deliver s2 buff2))))"

lemma dataRewrite_origin: "dataRewrite s buff = Some (s', buff') \<Longrightarrow> origin s' = origin s"
  by (auto simp: dataRewrite_def Let_def split: if_splits option.splits)

lemma deliver_origin: "origin (deliver s buff) = origin s"
  by (simp add: deliver_def)

lemma pumpOnce_length:
  assumes "pumpOnce s = Continue s'"
  shows "length (incoming (origin s')) < length (incoming (origin s))"
proof -
  let ?s0 = "s\<lparr>isDataCommandResponse := False\<rparr>"
  from assms obtain line rest where rd: "readLine (origin ?s0) = Some (line, rest)"
    by (cases "readLine (origin ?s0)") (auto simp: pumpOnce_def)
  then have less: "length rest < length (incoming (origin s))"
    by (auto simp: readLine_def split: if_splits dest: ReadString_length)
  let ?s1 = "setIncoming ?s0 rest"
  have s1: "incoming (origin ?s1) = rest" by (simp add: setIncoming_def)
  show ?thesis
  proof (cases "ProxyProtocol (config ?s1) \<and> Contains (welcomeReplace ?s1 line) ''500 PROXY''")
    case True
    with assms rd have "s' = ?s1" by (simp add: pumpOnce_def Let_def)
    with s1 less show ?thesis by simp
  next
    case False
    with assms rd obtain s2 buff2 where dr: "dataRewrite ?s1 (welcomeReplace ?s1 line) = Some (s2, buff2)"
      by (cases "dataRewrite ?s1 (welcomeReplace ?s1 line)") (auto simp: pumpOnce_def Let_def)
    then have o2: "origin s2 = origin ?s1" by (rule dataRewrite_origin)
    show ?thesis
    proof (cases "4 \<le> length buff2 \<and> buff2 ! 3 = CHR ''-''")
      case m: True
      with assms rd False dr obtain multiLine rest2 where
        rm: "readMulti (hd (getCode buff2)) buff2 (incoming (origin s2)) = MultiDone multiLine rest2"
        and s': "s' = deliver (setIncoming s2 rest2) multiLine"
        by (cases "readMulti (hd (getCode buff2)) buff2 (incoming (origin s2))")
           (auto simp: pumpOnce_def Let_def)
      from readMulti_length [OF rm] o2 s1 have "length rest2 < length rest" by simp
      moreover have "incoming (origin s') = rest2" by (simp add: s' deliver_origin setIncoming_def)
      ultimately show ?thesis using less by simp
    next
      case m: False
      with assms rd False dr have "s' = deliver s2 buff2" by (auto simp: pumpOnce_def Let_def)
      with o2 s1 less show ?thesis by (simp add: deliver_origin)
    qed
  qed
qed

function pump :: "proxyServer \<Rightarrow> pumpEnd \<times> proxyServer" where
  "pump s = (case pumpOnce s of Ended e s' \<Rightarrow> (e, s') | Continue s' \<Rightarrow> pump s')"
  by pat_completeness auto

termination pump
  by (relation "measure (\<lambda>s. length (incoming (origin s)))") (auto dest: pumpOnce_length)

declare pump.simps [simp del]

text \<open>
  Modelled from the spec: \<^verbatim>\<open>connectionCloser\<close> is declared outside the sources;
  according to the specification it closes the connection.
\<close>

definition connectionCloser :: "proxyServer \<Rightarrow> proxyServer" where
  "connectionCloser s = (if originNil s then s else s\<lparr>origin := (origin s)\<lparr>closed := True\<rparr>\<rparr>)"

definition closeDataConnector :: "proxyServer \<Rightarrow> proxyServer" where
  "closeDataConnector s =
     (case dataConnector s of
        None \<Rightarrow> s
      | Some d \<Rightarrow> s\<lparr>dataConnector := Some (d\<lparr>handlerClosed := True\<rparr>)\<rparr>)"

text \<open>
  \<^verbatim>\<open>start\<close>, run without interference by another goroutine until the reader
  goroutine ends: the guard, the pump, and the clean-up after the read error
  arrived on \<^verbatim>\<open>errchan\<close>. A panic ends the program.
\<close>

datatype callResult = Returns "error option" | Panics | Blocks

definition start :: "proxyServer \<Rightarrow> callResult \<times> proxyServer" where
  "start s =
     (if stop s \<or> \<not> passThrough s then (Returns None, s)
      else (case pump s of
              (Panicked, s') \<Rightarrow> (Panics, s')
            | (ReadFailed, s') \<Rightarrow> (Returns (Some ReadError), closeDataConnector (connectionCloser s'))))"

definition suspend :: "proxyServer \<Rightarrow> proxyServer" where
  "suspend s = s\<lparr>passThrough := False\<rparr>"

definition unsuspend :: "proxyServer \<Rightarrow> proxyServer" where
  "unsuspend s = s\<lparr>passThrough := True\<rparr>"

text \<open>\<^verbatim>\<open>Close\<close> and \<^verbatim>\<open>SetDataHandler\<close> (the wait for the previous handler is not modelled).\<close>

definition Close :: "proxyServer \<Rightarrow> proxyServer" where
  "Close s = (if originNil s then s else s\<lparr>origin := (origin s)\<lparr>closed := True\<rparr>\<rparr>)"

definition SetDataHandler :: "proxyServer \<Rightarrow> dataHandler \<Rightarrow> proxyServer" where
  "SetDataHandler s handler = s\<lparr>dataConnector := Some (handler\<lparr>inUse := True\<rparr>)\<rparr>"

section \<open>Creating a proxy server\<close>

text \<open>
  The network as the proxy meets it: what dialing an address gives, whether
  the lookup of a host name fails, and the bytes of the PROXY protocol header
  for a client and an origin address (written by a library).
\<close>

record network =
  dial :: "string \<Rightarrow> error + conn"
  lookupFails :: "string \<Rightarrow> bool"
  headerBytes :: "string \<Rightarrow> string \<Rightarrow> string"

definition tune :: "config \<Rightarrow> conn \<Rightarrow> conn" where
  "tune conf c = c\<lparr>keepAlive := True, keepAlivePeriod := KeepaliveTime conf, linger := Some 0\<rparr>"

definition newProxyServer :: "network \<Rightarrow> string \<Rightarrow> config \<Rightarrow> error + proxyServer" where
  "newProxyServer net originAddr conf =
     (case dial net originAddr of
        Inl err \<Rightarrow> Inl err
      | Inr c \<Rightarrow>
          Inr \<lparr>origin = tune conf c, originNil = False, passThrough = True, stop = False,
               isSwitched = False, welcomeMsg = ''220 '' @ WelcomeMsg conf @ CRLF, config = conf,
               dataConnector = None, isDataCommandResponse = False, clientOut = [],
               pumpRunning = False, signals = []\<rparr>)"

section \<open>Replaying the TLS commands\<close>

text \<open>
  The inner loop of \<^verbatim>\<open>sendTLSCommand\<close> for an \<^verbatim>\<open>AUTH\<close> command: \<open>None\<close> when
  a read fails, otherwise the refusing code (or \<open>None\<close> for code 234) and the
  bytes left.
\<close>

function authReply :: "bool \<Rightarrow> string \<Rightarrow> (string option \<times> string) option" where
  "authReply proxyProtocol inp =
     (case ReadString inp of
        None \<Rightarrow> None
      | Some (str, rest) \<Rightarrow>
          (let code = hd (getCode str)
           in if code \<noteq> ''234''
              then (if proxyProtocol \<and> Contains str ''500 PROXY'' then authReply proxyProtocol rest
                    else Some (Some code, rest))
              else Some (None, rest)))"
  by pat_completeness auto

termination authReply
  by (relation "measure (\<lambda>(proxyProtocol, inp). length inp)") (auto dest: ReadString_length)

declare authReply.simps [simp del]

definition isAuth :: "string \<Rightarrow> bool" where
  "isAuth cmd = (ToUpper (hd (getCommand cmd)) = ''AUTH'')"

fun sendTLSLoop :: "16 word \<Rightarrow> string list \<Rightarrow> error option \<Rightarrow> proxyServer \<Rightarrow> error option \<times> proxyServer" where
  "sendTLSLoop tlsProtocol [] lastError s = (lastError, s)"
| "sendTLSLoop tlsProtocol (cmd # cmds) lastError s =
     (let c = origin s
      in if writeFails c then (Some SendAuthFailed, s)
         else if flushFails c \<or> closed c then (Some FlushError, s)
         else (let c1 = c\<lparr>sent := sent c @ cmd\<rparr>
               in if isAuth cmd
                  then (case authReply (ProxyProtocol (config s)) (incoming c1) of
                          None \<Rightarrow> (Some MakeTLSFailed, s\<lparr>origin := c1\<lparr>incoming := []\<rparr>\<rparr>)
                        | Some (Some code, rest) \<Rightarrow>
                            sendTLSLoop tlsProtocol cmds (Some (NoTLSSupport code))
                              (s\<lparr>origin := c1\<lparr>incoming := rest\<rparr>\<rparr>)
                        | Some (None, rest) \<Rightarrow>
                            sendTLSLoop tlsProtocol cmds lastError
                              (s\<lparr>origin := c1\<lparr>incoming := rest,
                                     tlsClient := Some \<lparr>InsecureSkipVerify = True,
                                       MinVersion = tlsProtocol, MaxVersion = tlsProtocol\<rparr>\<rparr>\<rparr>))
                  else (case ReadString (incoming c1) of
                          None \<Rightarrow> (Some MakeTLSFailed, s\<lparr>origin := c1\<lparr>incoming := []\<rparr>\<rparr>)
                        | Some (str, rest) \<Rightarrow>
                            sendTLSLoop tlsProtocol cmds lastError (s\<lparr>origin := c1\<lparr>incoming := rest\<rparr>\<rparr>))))"

definition sendTLSCommand :: "proxyServer \<Rightarrow> 16 word \<Rightarrow> string list \<Rightarrow> error option \<times> proxyServer" where
  "sendTLSCommand s tlsProtocol previousTLSCommands = sendTLSLoop tlsProtocol previousTLSCommands None s"

section \<open>Switching the origin\<close>

text \<open>\<^verbatim>\<open>strings.Split\<close> with a one-byte separator.\<close>

fun Split :: "string \<Rightarrow> char \<Rightarrow> string list" where
  "Split [] sep = [[]]"
| "Split (b # s) sep =
     (if b = sep then [] # Split s sep
      else (case Split s sep of [] \<Rightarrow> [[b]] | x # xs \<Rightarrow> (b # x) # xs))"

text \<open>
  \<^verbatim>\<open>sendProxyHeader\<close>: indexing the second part of an address without a colon
  panics (\<open>None\<close>); a failed lookup and a failed write are returned as errors.
\<close>

definition sendProxyHeader :: "network \<Rightarrow> proxyServer \<Rightarrow> string \<Rightarrow> string \<Rightarrow> (error option \<times> proxyServer) option" where
  "sendProxyHeader net s clientAddr originAddr =
     (let sourceAddr = Split clientAddr (CHR '':'');
          destinationAddr = Split originAddr (CHR '':'')
      in if length sourceAddr < 2 \<or> length destinationAddr < 2 then None
         else if lookupFails net (hd destinationAddr) then Some (Some LookupError, s)
         else (let c = origin s
               in if writeFails c \<or> flushFails c \<or> closed c then Some (Some WriteError, s)
                  else Some (None, s\<lparr>origin := c\<lparr>sent := sent c @ headerBytes net clientAddr originAddr\<rparr>\<rparr>)))"

text \<open>
  The reply pump's reaction to the stop signal (the case \<^verbatim>\<open><-s.stopChan\<close> of its
  select loop), which \<^verbatim>\<open>switchOrigin\<close> waits for. What the pump does after its
  acknowledgement on \<^verbatim>\<open>stopChanDone\<close> runs beside the switch and is not part
  of this step.
\<close>

definition stopPump :: "proxyServer \<Rightarrow> proxyServer" where
  "stopPump s =
     (connectionCloser (s\<lparr>stop := True\<rparr>))\<lparr>pumpRunning := False, signals := signals s @ [StopSent, StopDone]\<rparr>"

text \<open>The deferred calls of \<^verbatim>\<open>switchOrigin\<close>, in the order they run.\<close>

definition finishSwitch :: "bool \<Rightarrow> bool \<Rightarrow> proxyServer \<Rightarrow> proxyServer" where
  "finishSwitch suspended switchResult s =
     (let s1 = s\<lparr>stop := False, signals := signals s @ [SwitchResult switchResult]\<rparr>
      in if suspended then unsuspend s1 else s1)"

text \<open>
  The steps of \<^verbatim>\<open>switchOrigin\<close> on the new connection: the welcome line is
  read, the connection is tuned and the TLS commands are replayed.
\<close>

definition welcomeAndTLS :: "bool \<Rightarrow> proxyServer \<Rightarrow> 16 word \<Rightarrow> string list \<Rightarrow> callResult \<times> proxyServer" where
  "welcomeAndTLS suspended s tlsProtocol previousTLSCommands =
     (case readLine (origin s) of
        None \<Rightarrow> (Returns (Some CannotConnectNewOrigin), finishSwitch suspended False (setIncoming s []))
      | Some (res, rest) \<Rightarrow>
          (let s' = s\<lparr>origin := tune (config s) ((origin s)\<lparr>incoming := rest\<rparr>)\<rparr>
           in case sendTLSCommand s' tlsProtocol previousTLSCommands of
                (Some err, s'') \<Rightarrow> (Returns (Some err), finishSwitch suspended False s'')
              | (None, s'') \<Rightarrow> (Returns None, finishSwitch suspended True s'')))"

text \<open>The steps before: the new origin is dialed and the PROXY header is sent if configured.\<close>

definition bindNewOrigin ::
  "network \<Rightarrow> bool \<Rightarrow> proxyServer \<Rightarrow> string \<Rightarrow> string \<Rightarrow> 16 word \<Rightarrow> string list \<Rightarrow> callResult \<times> proxyServer" where
  "bindNewOrigin net suspended s clientAddr originAddr tlsProtocol previousTLSCommands =
     (case dial net originAddr of
        Inl err \<Rightarrow> (Returns (Some err), finishSwitch suspended False (s\<lparr>originNil := True\<rparr>))
      | Inr c \<Rightarrow>
          (let s' = s\<lparr>origin := c, originNil := False\<rparr>
           in if ProxyProtocol (config s')
              then (case sendProxyHeader net s' clientAddr originAddr of
                      None \<Rightarrow> (Panics, finishSwitch suspended False s')
                    | Some (Some err, s'') \<Rightarrow> (Returns (Some err), finishSwitch suspended False s'')
                    | Some (None, s'') \<Rightarrow> welcomeAndTLS suspended s'' tlsProtocol previousTLSCommands)
              else welcomeAndTLS suspended s' tlsProtocol previousTLSCommands))"

text \<open>
  \<^verbatim>\<open>switchOrigin\<close>. The send on \<^verbatim>\<open>stopChan\<close> blocks for ever when no reply
  pump is there to take it; the receiver of \<^verbatim>\<open>waitSwitching\<close> is the caller's
  side and is taken to be there.
\<close>

definition switchOrigin ::
  "network \<Rightarrow> proxyServer \<Rightarrow> string \<Rightarrow> string \<Rightarrow> 16 word \<Rightarrow> string list \<Rightarrow> callResult \<times> proxyServer" where
  "switchOrigin net s clientAddr originAddr tlsProtocol previousTLSCommands =
     (if length originAddr = 0 then (Returns (Some UserIdNotFound), s)
      else if isSwitched s then (Returns (Some AlreadySwitched), s)
      else
       (let s1 = s\<lparr>isSwitched := True\<rparr>;
            suspended = passThrough s1;
            s2 = (if suspended then suspend s1 else s1)
        in if \<not> pumpRunning s2 then (Blocks, s2)
           else bindNewOrigin net suspended (stopPump s2) clientAddr originAddr tlsProtocol
                  previousTLSCommands))"

section \<open>Sequences of calls on a proxy server\<close>

text \<open>
  The operations of a \<^verbatim>\<open>proxyServer\<close> as calls, and the state after a call
  (\<^verbatim>\<open>responseProxy\<close> is \<^verbatim>\<open>start\<close> on the origin reader and the client writer).
\<close>

datatype call =
    CallSendToOrigin string
  | CallResponseProxy
  | CallSuspend
  | CallUnsuspend
  | CallClose
  | CallSetDataHandler dataHandler
  | CallSendTLSCommand "16 word" "string list"
  | CallSwitchOrigin string string "16 word" "string list"

fun perform :: "network \<Rightarrow> proxyServer \<Rightarrow> call \<Rightarrow> proxyServer" where
  "perform net s (CallSendToOrigin line) = snd (sendToOrigin s line)"
| "perform net s CallResponseProxy = snd (start s)"
| "perform net s CallSuspend = suspend s"
| "perform net s CallUnsuspend = unsuspend s"
| "perform net s CallClose = Close s"
| "perform net s (CallSetDataHandler handler) = SetDataHandler s handler"
| "perform net s (CallSendTLSCommand tlsProtocol cmds) = snd (sendTLSCommand s tlsProtocol cmds)"
| "perform net s (CallSwitchOrigin clientAddr originAddr tlsProtocol cmds) =
     snd (switchOrigin net s clientAddr originAddr tlsProtocol cmds)"

definition performAll :: "network \<Rightarrow> proxyServer \<Rightarrow> call list \<Rightarrow> proxyServer" where
  "performAll net s calls = foldl (perform net) s calls"

section \<open>Example values\<close>

definition exampleConn :: conn where
  "exampleConn =
     \<lparr>remoteAddr = ''10.0.0.5:21'', incoming = [], sent = [], writeFails = False,
      flushFails = False, closed = False, keepAlive = True, keepAlivePeriod = 30,
      linger = Some 0, tlsClient = None\<rparr>"

definition exampleConfig :: config where
  "exampleConfig =
     \<lparr>ProxyProtocol = False, DataChanProxy = False, MasqueradeIP = ''198.51.100.9'',
      WelcomeMsg = ''FTP proxy ready'', KeepaliveTime = 30, ProxyTimeout = 900\<rparr>"

definition exampleServer :: proxyServer where
  "exampleServer =
     \<lparr>origin = exampleConn, originNil = False, passThrough = True, stop = False,
      isSwitched = False, welcomeMsg = ''220 '' @ WelcomeMsg exampleConfig @ CRLF,
      config = exampleConfig, dataConnector = None, isDataCommandResponse = False,
      clientOut = [], pumpRunning = True, signals = []\<rparr>"

definition exampleNetwork :: network where
  "exampleNetwork =
     \<lparr>dial = (\<lambda>addr. if addr = ''10.0.0.7:21''
                     then Inr (exampleConn\<lparr>remoteAddr := addr, incoming := ''220 origin ready'' @ CRLF\<rparr>)
                     else Inl DialError),
      lookupFails = (\<lambda>host. False),
      headerBytes = (\<lambda>clientAddr originAddr. ''PROXY TCP4 192.0.2.1 10.0.0.7 4000 21'' @ CRLF)\<rparr>"

section \<open>Properties of the command-line validation\<close>

lemma stripLeading_None: "stripLeading line = None \<longleftrightarrow> (\<forall>b\<in>set line. \<not> isAlpha b)"
  by (induction line) auto

lemma stripLeading_Some:
  "stripLeading line = Some l \<Longrightarrow> l = dropWhile (\<lambda>b. \<not> isAlpha b) line \<and> l \<noteq> [] \<and> isAlpha (hd l)"
  by (induction line) (auto split: if_splits)

lemma not_alpha_CR_LF: "\<not> isAlpha CR" "\<not> isAlpha LF"
  by (simp_all add: isAlpha_def)

lemma Remove_wellformed:
  assumes "HasSuffix l CRLF" "Count l CR = 1" "Count l LF = 1"
  shows "Remove (Remove l LF) CR @ CRLF = l"
proof -
  from assms(1) obtain m where l: "l = m @ CRLF"
    unfolding HasSuffix_def by (metis append_take_drop_id)
  from assms(2) l have "CR \<notin> set m"
    by (auto simp: Count_def filter_empty_conv)
  moreover from assms(3) l have "LF \<notin> set m"
    by (auto simp: Count_def filter_empty_conv)
  ultimately have "filter (\<lambda>b. b \<noteq> CR) (filter (\<lambda>b. b \<noteq> LF) m) = m"
    by (auto simp: filter_id_conv)
  then show ?thesis using l by (simp add: Remove_def)
qed

lemma normal_form:
  assumes "l \<noteq> []" "isAlpha (hd l)"
  defines "out \<equiv> Remove (Remove l LF) CR @ CRLF"
  shows "isAlpha (hd out)" "Count out CR = 1" "Count out LF = 1" "HasSuffix out CRLF"
proof -
  obtain b t where l: "l = b # t" using assms(1) by (cases l) auto
  with assms(2) have "b \<noteq> CR" "b \<noteq> LF" using not_alpha_CR_LF by auto
  then show "isAlpha (hd out)" using l assms(2) by (simp add: out_def Remove_def)
  show "Count out CR = 1" by (auto simp: out_def Remove_def Count_def filter_empty_conv)
  show "Count out LF = 1" by (auto simp: out_def Remove_def Count_def filter_empty_conv)
  show "HasSuffix out CRLF" by (simp add: out_def HasSuffix_def)
qed

lemma commandLineCheck_Inr:
  assumes "stripLeading line = Some l"
  shows "commandLineCheck line = Inr (Remove (Remove l LF) CR @ CRLF)"
proof (cases "HasSuffix l CRLF \<and> Count l CR = 1 \<and> Count l LF = 1")
  case True
  then have "Remove (Remove l LF) CR @ CRLF = l" by (simp add: Remove_wellformed)
  with True assms show ?thesis by (simp add: commandLineCheck_def)
next
  case False
  with assms show ?thesis by (auto simp: commandLineCheck_def)
qed

text \<open>
  C1. For every command line passed to \<^verbatim>\<open>sendToOrigin\<close>: a line without any
  ASCII letter makes the operation fail with the wrong-command-line error, and
  the server state (so also what was written to origin) is unchanged. Otherwise
  the line handed to the origin writer is the input without its leading
  non-alphabetic bytes, with every CR and LF removed and one CRLF appended: it
  starts with a letter, has exactly one CR and one LF, and these are its last
  two bytes, CR before LF; and when the writer works, exactly that line is
  appended to what origin has received.
\<close>

theorem sendToOrigin_command_line:
  "if \<forall>b\<in>set line. \<not> isAlpha b
   then sendToOrigin s line = (Some WrongCommandLine, s)
   else (let out = Remove (Remove (dropWhile (\<lambda>b. \<not> isAlpha b) line) LF) CR @ CRLF
         in commandLineCheck line = Inr out \<and>
            sendToOrigin s line = writeOrigin s out \<and>
            isAlpha (hd out) \<and> Count out CR = 1 \<and> Count out LF = 1 \<and> HasSuffix out CRLF \<and>
            (if writeFails (origin s) \<or> flushFails (origin s) \<or> closed (origin s)
             then snd (sendToOrigin s line) = s \<and> fst (sendToOrigin s line) \<noteq> None
             else sendToOrigin s line = (None, s\<lparr>origin := (origin s)\<lparr>sent := sent (origin s) @ out\<rparr>\<rparr>)))"
proof (cases "stripLeading line")
  case None
  then have "\<forall>b\<in>set line. \<not> isAlpha b" by (simp add: stripLeading_None)
  moreover from None have "sendToOrigin s line = (Some WrongCommandLine, s)"
    by (simp add: sendToOrigin_def commandLineCheck_def)
  ultimately show ?thesis by simp
next
  case (Some l)
  then have some: "\<not> (\<forall>b\<in>set line. \<not> isAlpha b)"
    using stripLeading_None [of line] by simp
  let ?out = "Remove (Remove (dropWhile (\<lambda>b. \<not> isAlpha b) line) LF) CR @ CRLF"
  have l: "l = dropWhile (\<lambda>b. \<not> isAlpha b) line" and ne: "l \<noteq> []" and al: "isAlpha (hd l)"
    using stripLeading_Some [OF Some] by blast+
  have chk: "commandLineCheck line = Inr ?out"
    using commandLineCheck_Inr [OF Some] l by simp
  then have snd: "sendToOrigin s line = writeOrigin s ?out"
    by (simp add: sendToOrigin_def)
  have shape: "isAlpha (hd ?out)" "Count ?out CR = 1" "Count ?out LF = 1" "HasSuffix ?out CRLF"
    by (simp_all only: l [symmetric] normal_form [OF ne al])
  have io: "if writeFails (origin s) \<or> flushFails (origin s) \<or> closed (origin s)
            then snd (sendToOrigin s line) = s \<and> fst (sendToOrigin s line) \<noteq> None
            else sendToOrigin s line = (None, s\<lparr>origin := (origin s)\<lparr>sent := sent (origin s) @ ?out\<rparr>\<rparr>)"
    unfolding snd by (simp add: writeOrigin_def Let_def)
  show ?thesis
    unfolding Let_def if_not_P [OF some]
    by (intro conjI) (fact chk snd shape io)+
qed

theorem sendToOrigin_command_line_witness:
  "sendToOrigin exampleServer [CHR 0xFF, CHR 0xF4, CHR 0xFF, CHR ''A'', CHR ''B'', LF, CHR ''O'', CHR ''R'']
     = (None, exampleServer\<lparr>origin := exampleConn\<lparr>sent := ''ABOR'' @ CRLF\<rparr>\<rparr>) \<and>
   sendToOrigin exampleServer ''123 '' = (Some WrongCommandLine, exampleServer)"
  using sendToOrigin_command_line [of "[CHR 0xFF, CHR 0xF4, CHR 0xFF, CHR ''A'', CHR ''B'', LF, CHR ''O'', CHR ''R'']" exampleServer]
    sendToOrigin_command_line [of "''123 ''" exampleServer]
  by (simp add: Let_def isAlpha_def Remove_def writeOrigin_def exampleServer_def exampleConn_def)

section \<open>What the operations leave unchanged\<close>

lemma dataRewrite_fields:
  assumes "dataRewrite s buff = Some (s', buff')"
  shows "isSwitched s' = isSwitched s" "passThrough s' = passThrough s" "config s' = config s"
    "welcomeMsg s' = welcomeMsg s" "clientOut s' = clientOut s" "stop s' = stop s"
    "signals s' = signals s" "originNil s' = originNil s" "pumpRunning s' = pumpRunning s"
  using assms by (auto simp: dataRewrite_def Let_def split: if_splits option.splits)

lemma deliver_fields:
  "isSwitched (deliver s buff) = isSwitched s" "passThrough (deliver s buff) = passThrough s"
  "config (deliver s buff) = config s" "welcomeMsg (deliver s buff) = welcomeMsg s"
  "stop (deliver s buff) = stop s" "signals (deliver s buff) = signals s"
  "dataConnector (deliver s buff) = dataConnector s"
  by (simp_all add: deliver_def)

lemma setIncoming_fields:
  "isSwitched (setIncoming s rest) = isSwitched s" "passThrough (setIncoming s rest) = passThrough s"
  "config (setIncoming s rest) = config s" "welcomeMsg (setIncoming s rest) = welcomeMsg s"
  "clientOut (setIncoming s rest) = clientOut s" "stop (setIncoming s rest) = stop s"
  "signals (setIncoming s rest) = signals s" "dataConnector (setIncoming s rest) = dataConnector s"
  "incoming (origin (setIncoming s rest)) = rest"
  by (simp_all add: setIncoming_def)

text \<open>The state a pass of the pump loop leaves behind, whichever way the pass ends.\<close>

fun stateOf :: "pumpStep \<Rightarrow> proxyServer" where
  "stateOf (Ended e s) = s"
| "stateOf (Continue s) = s"

lemma pumpOnce_fields:
  "isSwitched (stateOf (pumpOnce s)) = isSwitched s"
  "passThrough (stateOf (pumpOnce s)) = passThrough s"
  "config (stateOf (pumpOnce s)) = config s"
  "welcomeMsg (stateOf (pumpOnce s)) = welcomeMsg s"
  by (auto simp: pumpOnce_def Let_def setIncoming_fields deliver_fields
      split: option.splits multiRead.splits dest: dataRewrite_fields)

lemma pump_preserves:
  assumes "\<And>s. f (stateOf (pumpOnce s)) = f s"
  shows "f (snd (pump s)) = f s"
proof (induction s rule: pump.induct)
  case (1 s)
  show ?case
  proof (cases "pumpOnce s")
    case (Ended e s')
    with assms [of s] show ?thesis by (simp add: pump.simps [of s])
  next
    case (Continue s')
    with "1.IH" [OF Continue] assms [of s] show ?thesis by (simp add: pump.simps [of s])
  qed
qed

lemma connectionCloser_isSwitched: "isSwitched (connectionCloser s) = isSwitched s"
  by (simp add: connectionCloser_def)

lemma closeDataConnector_isSwitched: "isSwitched (closeDataConnector s) = isSwitched s"
  by (simp add: closeDataConnector_def split: option.splits)

lemma start_isSwitched: "isSwitched (snd (start s)) = isSwitched s"
proof -
  have "isSwitched (snd (pump s)) = isSwitched s"
    by (rule pump_preserves) (rule pumpOnce_fields)
  then show ?thesis
    by (cases "pump s")
       (auto simp: start_def connectionCloser_isSwitched closeDataConnector_isSwitched
          split: pumpEnd.splits)
qed

lemma sendToOrigin_isSwitched: "isSwitched (snd (sendToOrigin s line)) = isSwitched s"
  by (simp add: sendToOrigin_def writeOrigin_def Let_def split: sum.splits)

lemma sendTLSLoop_isSwitched: "isSwitched (snd (sendTLSLoop v cmds lastError s)) = isSwitched s"
  by (induction cmds arbitrary: lastError s) (auto simp: Let_def split: option.splits)

lemma switchOrigin_switched:
  "isSwitched s \<Longrightarrow>
   switchOrigin net s clientAddr originAddr v cmds =
     (Returns (Some (if originAddr = [] then UserIdNotFound else AlreadySwitched)), s)"
  by (simp add: switchOrigin_def)

lemma perform_isSwitched: "isSwitched s \<Longrightarrow> isSwitched (perform net s c)"
  by (cases c)
     (simp_all add: sendToOrigin_isSwitched start_isSwitched suspend_def unsuspend_def Close_def
        SetDataHandler_def sendTLSCommand_def sendTLSLoop_isSwitched switchOrigin_switched)

lemma performAll_isSwitched: "isSwitched s \<Longrightarrow> isSwitched (performAll net s calls)"
  unfolding performAll_def by (induction calls arbitrary: s) (simp_all add: perform_isSwitched)

section \<open>Properties of the origin switch\<close>

lemma finishSwitch_isSwitched: "isSwitched (finishSwitch suspended r s) = isSwitched s"
  by (simp add: finishSwitch_def unsuspend_def Let_def)

lemma stopPump_isSwitched: "isSwitched (stopPump s) = isSwitched s"
  by (simp add: stopPump_def connectionCloser_def)

lemma sendProxyHeader_isSwitched:
  "sendProxyHeader net s clientAddr originAddr = Some (e, s') \<Longrightarrow> isSwitched s' = isSwitched s"
  by (auto simp: sendProxyHeader_def Let_def split: if_splits)

lemma welcomeAndTLS_isSwitched: "isSwitched (snd (welcomeAndTLS suspended s v cmds)) = isSwitched s"
proof (cases "readLine (origin s)")
  case None
  then show ?thesis by (simp add: welcomeAndTLS_def finishSwitch_isSwitched setIncoming_fields)
next
  case (Some lr)
  obtain res rest where lr: "lr = (res, rest)" by (cases lr)
  let ?s' = "s\<lparr>origin := tune (config s) ((origin s)\<lparr>incoming := rest\<rparr>)\<rparr>"
  have "isSwitched (snd (sendTLSCommand ?s' v cmds)) = isSwitched s"
    by (simp add: sendTLSCommand_def sendTLSLoop_isSwitched)
  with Some lr show ?thesis
    by (cases "sendTLSCommand ?s' v cmds")
       (auto simp: welcomeAndTLS_def Let_def finishSwitch_isSwitched split: option.splits)
qed

lemma bindNewOrigin_isSwitched:
  "isSwitched (snd (bindNewOrigin net suspended s clientAddr originAddr v cmds)) = isSwitched s"
  by (auto simp: bindNewOrigin_def Let_def finishSwitch_isSwitched welcomeAndTLS_isSwitched
      split: sum.splits option.splits dest: sendProxyHeader_isSwitched)

lemma switchOrigin_sets_isSwitched:
  assumes "originAddr \<noteq> []" "\<not> isSwitched s"
  shows "isSwitched (snd (switchOrigin net s clientAddr originAddr v cmds))"
  using assms
  by (simp add: switchOrigin_def Let_def bindNewOrigin_isSwitched stopPump_isSwitched suspend_def)

text \<open>
  C10. A call of \<^verbatim>\<open>switchOrigin\<close> with an empty origin address returns the
  error "user id not found" and leaves the proxy server exactly as it was:
  \<open>isSwitched\<close> and \<open>passThrough\<close> keep their values, no signal is exchanged
  with the reply pump, and the origin connection is not closed.
\<close>

theorem switchOrigin_empty_address:
  "switchOrigin net s clientAddr [] tlsProtocol previousTLSCommands = (Returns (Some UserIdNotFound), s)"
  by (simp add: switchOrigin_def)

theorem switchOrigin_empty_address_witness:
  "switchOrigin exampleNetwork exampleServer ''192.0.2.1:4000'' [] 771 [] =
     (Returns (Some UserIdNotFound), exampleServer) \<and>
   \<not> isSwitched exampleServer \<and> passThrough exampleServer \<and> signals exampleServer = [] \<and>
   \<not> closed (origin exampleServer)"
  using switchOrigin_empty_address [of exampleNetwork exampleServer "''192.0.2.1:4000''" 771 "[]"]
  by (simp add: exampleServer_def exampleConn_def)

text \<open>
  C4, as the code has it. \<open>isSwitched\<close> is monotone: a call of \<^verbatim>\<open>switchOrigin\<close>
  with a non-empty address on a server not yet switched sets it, and no
  sequence of calls on the server resets it. Every later call of
  \<^verbatim>\<open>switchOrigin\<close> returns without performing any step of the switch (the
  state is unchanged); the error is "origin already switched" when the address
  is not empty, and "user id not found" when it is empty, because the address
  is tested first.
\<close>

theorem switchOrigin_at_most_once:
  "(originAddr \<noteq> [] \<and> \<not> isSwitched s \<longrightarrow>
      isSwitched (snd (switchOrigin net s clientAddr originAddr tlsProtocol cmds))) \<and>
   (isSwitched s \<longrightarrow>
      isSwitched (performAll net s calls) \<and>
      switchOrigin net (performAll net s calls) clientAddr' originAddr' tlsProtocol' cmds' =
        (Returns (Some (if originAddr' = [] then UserIdNotFound else AlreadySwitched)),
         performAll net s calls))"
  using switchOrigin_sets_isSwitched [of originAddr s net clientAddr tlsProtocol cmds]
    performAll_isSwitched [of s net calls]
    switchOrigin_switched [of "performAll net s calls" net clientAddr' originAddr' tlsProtocol' cmds']
  by blast

theorem switchOrigin_at_most_once_witness:
  "isSwitched (snd (switchOrigin exampleNetwork exampleServer ''192.0.2.1:4000'' ''10.0.0.7:21'' 771 [])) \<and>
   switchOrigin exampleNetwork
     (performAll exampleNetwork (exampleServer\<lparr>isSwitched := True\<rparr>) [CallSuspend, CallUnsuspend])
     ''192.0.2.1:4000'' ''10.0.0.8:21'' 771 [] =
   (Returns (Some AlreadySwitched), exampleServer\<lparr>isSwitched := True\<rparr>)"
  using switchOrigin_at_most_once [of "''10.0.0.7:21''" exampleServer exampleNetwork "''192.0.2.1:4000''" 771 "[]"]
    switchOrigin_at_most_once [of _ "exampleServer\<lparr>isSwitched := True\<rparr>" exampleNetwork _ _ _
      "[CallSuspend, CallUnsuspend]" "''192.0.2.1:4000''" "''10.0.0.8:21''" 771 "[]"]
  by (simp add: exampleServer_def performAll_def suspend_def unsuspend_def)

theorem switchOrigin_later_call_counterexample:
  "isSwitched (snd (switchOrigin exampleNetwork exampleServer ''192.0.2.1:4000'' ''10.0.0.7:21'' 771 [])) \<and>
   fst (switchOrigin exampleNetwork
          (snd (switchOrigin exampleNetwork exampleServer ''192.0.2.1:4000'' ''10.0.0.7:21'' 771 []))
          ''192.0.2.1:4000'' [] 771 []) = Returns (Some UserIdNotFound) \<and>
   Returns (Some UserIdNotFound) \<noteq> Returns (Some AlreadySwitched)"
  by code_simp

section \<open>Properties of the reply pump\<close>

lemma pumpOnce_consumes:
  assumes rd: "readLine (origin s) = Some (line, rest)"
  shows "length (incoming (origin (stateOf (pumpOnce s)))) \<le> length rest"
proof -
  let ?s0 = "s\<lparr>isDataCommandResponse := False\<rparr>"
  from rd have rd0: "readLine (origin ?s0) = Some (line, rest)" by simp
  let ?s1 = "setIncoming ?s0 rest"
  have s1: "incoming (origin ?s1) = rest" by (simp add: setIncoming_def)
  show ?thesis
  proof (cases "ProxyProtocol (config ?s1) \<and> Contains (welcomeReplace ?s1 line) ''500 PROXY''")
    case True
    with rd0 have "pumpOnce s = Continue ?s1" by (simp add: pumpOnce_def Let_def)
    with s1 show ?thesis by simp
  next
    case False
    show ?thesis
    proof (cases "dataRewrite ?s1 (welcomeReplace ?s1 line)")
      case None
      with rd0 False have "pumpOnce s = Ended Panicked ?s1" by (simp add: pumpOnce_def Let_def)
      with s1 show ?thesis by simp
    next
      case (Some r)
      obtain s2 buff2 where r: "r = (s2, buff2)" by (cases r)
      from Some r have o2: "origin s2 = origin ?s1" by (auto dest: dataRewrite_origin)
      show ?thesis
      proof (cases "4 \<le> length buff2 \<and> buff2 ! 3 = CHR ''-''")
        case m: False
        with rd0 False Some r have "pumpOnce s = Continue (deliver s2 buff2)"
          by (auto simp: pumpOnce_def Let_def)
        with o2 s1 show ?thesis by (simp add: deliver_origin)
      next
        case m: True
        show ?thesis
        proof (cases "readMulti (hd (getCode buff2)) buff2 (incoming (origin s2))")
          case MultiFailed
          with rd0 False Some r m have "pumpOnce s = Ended ReadFailed (setIncoming s2 [])"
            by (auto simp: pumpOnce_def Let_def)
          then show ?thesis by (simp add: setIncoming_def)
        next
          case MultiPanic
          with rd0 False Some r m have "pumpOnce s = Ended Panicked s2"
            by (auto simp: pumpOnce_def Let_def)
          with o2 s1 show ?thesis by simp
        next
          case (MultiDone multiLine rest2)
          with rd0 False Some r m have "pumpOnce s = Continue (deliver (setIncoming s2 rest2) multiLine)"
            by (auto simp: pumpOnce_def Let_def)
          moreover from readMulti_length [OF MultiDone] o2 s1 have "length rest2 < length rest" by simp
          ultimately show ?thesis by (simp add: deliver_origin setIncoming_def)
        qed
      qed
    qed
  qed
qed

lemma pumpOnce_clientOut:
  "clientOut (stateOf (pumpOnce s)) = clientOut s \<or>
   (passThrough s \<and> (\<exists>buff. clientOut (stateOf (pumpOnce s)) = clientOut s @ [buff]))"
  by (auto simp: pumpOnce_def Let_def setIncoming_fields deliver_def
      split: option.splits multiRead.splits dest: dataRewrite_fields)

lemma pumpOnce_suspended:
  "(passThrough (stateOf (pumpOnce s)), if passThrough (stateOf (pumpOnce s)) then [] else clientOut (stateOf (pumpOnce s)))
    = (passThrough s, if passThrough s then [] else clientOut s)"
  using pumpOnce_clientOut [of s] by (auto simp: pumpOnce_fields)

lemma pump_suspended: "\<not> passThrough s \<Longrightarrow> clientOut (snd (pump s)) = clientOut s"
  using pump_preserves [of "\<lambda>s. (passThrough s, if passThrough s then [] else clientOut s)" s, OF pumpOnce_suspended]
  by (auto split: if_splits)

text \<open>
  C2. The \<open>passThrough\<close> flag gates the reply pump. While it is false, a pass
  of the pump loop reads its line (the bytes are taken from the origin
  connection) and hands nothing to the client writer, and a whole run of the
  pump leaves the client output as it was; \<^verbatim>\<open>start\<close> itself returns at once.
  A pass hands a buffer to the client writer only when \<open>passThrough\<close> is true,
  and then exactly one. The line read while the flag is false stays in the local
  variable of the loop and is overwritten by the next pass.
\<close>

theorem pass_through_gate:
  "(\<not> passThrough s \<longrightarrow>
      clientOut (stateOf (pumpOnce s)) = clientOut s \<and>
      clientOut (snd (pump s)) = clientOut s \<and>
      start s = (Returns None, s) \<and>
      (\<forall>line rest. readLine (origin s) = Some (line, rest) \<longrightarrow>
         length (incoming (origin (stateOf (pumpOnce s)))) \<le> length rest)) \<and>
   (clientOut (stateOf (pumpOnce s)) = clientOut s \<or>
    (passThrough s \<and> (\<exists>buff. clientOut (stateOf (pumpOnce s)) = clientOut s @ [buff])))"
  using pumpOnce_clientOut [of s] pump_suspended [of s] pumpOnce_consumes [of s]
  by (auto simp: start_def)

theorem pass_through_gate_witness:
  "pumpOnce (exampleServer\<lparr>passThrough := False, origin := exampleConn\<lparr>incoming := ''331 Password required'' @ CRLF\<rparr>\<rparr>) =
     Continue (exampleServer\<lparr>passThrough := False, origin := exampleConn\<lparr>incoming := []\<rparr>\<rparr>) \<and>
   clientOut (snd (pump (exampleServer\<lparr>passThrough := False, origin := exampleConn\<lparr>incoming := ''331 Password required'' @ CRLF\<rparr>\<rparr>))) = [] \<and>
   pumpOnce (exampleServer\<lparr>origin := exampleConn\<lparr>incoming := ''331 Password required'' @ CRLF\<rparr>\<rparr>) =
     Continue (exampleServer\<lparr>origin := exampleConn\<lparr>incoming := []\<rparr>, clientOut := [''331 Password required'' @ CRLF]\<rparr>)"
  using pass_through_gate [of "exampleServer\<lparr>passThrough := False, origin := exampleConn\<lparr>incoming := ''331 Password required'' @ CRLF\<rparr>\<rparr>"]
  by (simp add: pumpOnce_def readLine_def setIncoming_def welcomeReplace_def getCode_def Trim_def
      isCRLF_def SplitN2_def stringOfByte_def HasPrefix_def dataRewrite_def deliver_def Let_def
      exampleServer_def exampleConn_def exampleConfig_def)

subsection \<open>Reply codes\<close>

lemma dropWhile_append_keep: "\<not> P y \<Longrightarrow> dropWhile P (xs @ y # ys) = dropWhile P xs @ y # ys"
  by (induction xs) auto

lemma Trim_keep:
  assumes "\<not> isCRLF a" "\<not> isCRLF d"
  shows "Trim (a # xs @ d # t) = a # xs @ d # rev (dropWhile isCRLF (rev t))"
proof -
  have "dropWhile isCRLF (a # xs @ d # t) = a # xs @ d # t" using assms(1) by simp
  moreover have "rev (a # xs @ d # t) = rev t @ d # (rev xs @ [a])" by simp
  ultimately have "Trim (a # xs @ d # t) = rev (dropWhile isCRLF (rev t @ d # (rev xs @ [a])))"
    by (simp only: Trim_def)
  also have "\<dots> = rev (dropWhile isCRLF (rev t) @ d # (rev xs @ [a]))"
    using assms(2) by (simp add: dropWhile_append_keep)
  finally show ?thesis by simp
qed

lemma cutFirst_at_fourth:
  assumes "a \<noteq> d" "b \<noteq> d" "c \<noteq> d"
  shows "cutFirst (a # b # c # d # t) [d] = Some ([a, b, c], t)"
  using assms by (simp add: HasPrefix_def)

lemma getCode_three:
  assumes "\<not> isCRLF a" "\<not> isCRLF d" "a \<noteq> d" "b \<noteq> d" "c \<noteq> d" "(of_char d :: nat) < 128"
  shows "hd (getCode (a # b # c # d # t)) = [a, b, c]"
proof -
  have "Trim (a # [b, c] @ d # t) = a # [b, c] @ d # rev (dropWhile isCRLF (rev t))"
    using assms(1,2) by (rule Trim_keep)
  then have "Trim (a # b # c # d # t) = a # b # c # d # rev (dropWhile isCRLF (rev t))" by simp
  moreover have "stringOfByte d = [d]" using assms(6) by (simp add: stringOfByte_def)
  ultimately show ?thesis
    using cutFirst_at_fourth [OF assms(3,4,5)] by (simp add: getCode_def SplitN2_def)
qed

lemma HasPrefix_append: "HasPrefix line p \<longleftrightarrow> (\<exists>t. line = p @ t)"
  unfolding HasPrefix_def by (metis append_eq_conv_conj append_take_drop_id)

lemma getCode_220:
  assumes "HasPrefix line ''220 '' \<or> HasPrefix line ''220-''"
  shows "hd (getCode line) = ''220''"
proof -
  from assms obtain d t where "line = CHR ''2'' # CHR ''2'' # CHR ''0'' # d # t" "d = SP \<or> d = CHR ''-''"
    by (auto simp: HasPrefix_append)
  then show ?thesis by (auto simp: getCode_three isCRLF_def)
qed

lemma dataRewrite_not_switched: "\<not> isSwitched s \<Longrightarrow> dataRewrite s buff = Some (s, buff)"
  by (simp add: dataRewrite_def)

subsection \<open>One pass of the pump loop, case by case\<close>

lemma welcomeReplace_setIncoming [simp]:
  "welcomeReplace (setIncoming (s\<lparr>isDataCommandResponse := b\<rparr>) rest) line = welcomeReplace s line"
  by (simp add: welcomeReplace_def setIncoming_def)

lemma pumpOnce_dropped:
  assumes "readLine (origin s) = Some (line, rest)"
    and "ProxyProtocol (config s)" "Contains (welcomeReplace s line) ''500 PROXY''"
  shows "pumpOnce s = Continue (setIncoming (s\<lparr>isDataCommandResponse := False\<rparr>) rest)"
  using assms by (simp add: pumpOnce_def Let_def setIncoming_fields)

lemma pumpOnce_single:
  assumes "readLine (origin s) = Some (line, rest)"
    and "\<not> (ProxyProtocol (config s) \<and> Contains (welcomeReplace s line) ''500 PROXY'')"
    and "dataRewrite (setIncoming (s\<lparr>isDataCommandResponse := False\<rparr>) rest) (welcomeReplace s line) = Some (s2, buff2)"
    and "\<not> (4 \<le> length buff2 \<and> buff2 ! 3 = CHR ''-'')"
  shows "pumpOnce s = Continue (deliver s2 buff2)"
proof -
  from assms(2) have "\<not> (ProxyProtocol (config (setIncoming (s\<lparr>isDataCommandResponse := False\<rparr>) rest)) \<and>
      Contains (welcomeReplace s line) ''500 PROXY'')"
    by (simp add: setIncoming_fields)
  with assms(1,3,4) show ?thesis
    unfolding pumpOnce_def Let_def by auto
qed

lemma pumpOnce_multi:
  assumes "readLine (origin s) = Some (line, rest)"
    and "\<not> (ProxyProtocol (config s) \<and> Contains (welcomeReplace s line) ''500 PROXY'')"
    and "dataRewrite (setIncoming (s\<lparr>isDataCommandResponse := False\<rparr>) rest) (welcomeReplace s line) = Some (s2, buff2)"
    and "4 \<le> length buff2" "buff2 ! 3 = CHR ''-''"
    and "readMulti (hd (getCode buff2)) buff2 (incoming (origin s2)) = MultiDone block rest2"
  shows "pumpOnce s = Continue (deliver (setIncoming s2 rest2) block)"
proof -
  from assms(2) have "\<not> (ProxyProtocol (config (setIncoming (s\<lparr>isDataCommandResponse := False\<rparr>) rest)) \<and>
      Contains (welcomeReplace s line) ''500 PROXY'')"
    by (simp add: setIncoming_fields)
  with assms(1,3,4,5,6) show ?thesis
    unfolding pumpOnce_def Let_def by auto
qed

text \<open>
  C7. On a connection that is not yet switched, a reply line read from origin
  that begins with the code 220 (followed by a space or a hyphen) is replaced
  by the welcome string \<^verbatim>\<open>"220 " + WelcomeMsg + "\r\n"\<close> that \<^verbatim>\<open>newProxyServer\<close>
  stored, and that string is what the pass hands to the client writer instead of
  the origin's line. The reply pump forwards under its usual conditions: the
  gate \<open>passThrough\<close> is open and the buffer is not caught by the
  \<^verbatim>\<open>500 PROXY\<close> filter. The code replaces every such line, so in particular
  the first reply.
\<close>

theorem welcome_replacement:
  assumes "\<not> isSwitched s"
    and "readLine (origin s) = Some (line, rest)"
    and "HasPrefix line ''220 '' \<or> HasPrefix line ''220-''"
    and "welcomeMsg s = ''220 '' @ WelcomeMsg (config s) @ CRLF"
    and "\<not> (ProxyProtocol (config s) \<and> Contains (welcomeMsg s) ''500 PROXY'')"
    and "passThrough s"
  shows "pumpOnce s =
           Continue (s\<lparr>isDataCommandResponse := False, origin := (origin s)\<lparr>incoming := rest\<rparr>,
                      clientOut := clientOut s @ [''220 '' @ WelcomeMsg (config s) @ CRLF]\<rparr>)"
proof -
  let ?s1 = "setIncoming (s\<lparr>isDataCommandResponse := False\<rparr>) rest"
  have w: "welcomeReplace s line = welcomeMsg s"
    using assms(1) getCode_220 [OF assms(3)] by (simp add: welcomeReplace_def)
  have d: "dataRewrite ?s1 (welcomeReplace s line) = Some (?s1, welcomeMsg s)"
    using assms(1) w by (simp add: dataRewrite_not_switched setIncoming_def)
  have m: "\<not> (4 \<le> length (welcomeMsg s) \<and> welcomeMsg s ! 3 = CHR ''-'')"
    by (simp add: assms(4))
  have "pumpOnce s = Continue (deliver ?s1 (welcomeMsg s))"
    using assms(5) by (intro pumpOnce_single [OF assms(2) _ d m]) (simp add: w)
  then show ?thesis using assms(4,6) by (simp add: deliver_def setIncoming_def)
qed

lemma newProxyServer_welcomeMsg:
  "newProxyServer net originAddr conf = Inr s \<Longrightarrow>
   welcomeMsg s = ''220 '' @ WelcomeMsg conf @ CRLF \<and> config s = conf \<and> \<not> isSwitched s \<and> passThrough s"
  by (auto simp: newProxyServer_def split: sum.splits)

theorem welcome_replacement_witness:
  "pumpOnce (exampleServer\<lparr>origin := exampleConn\<lparr>incoming := ''220 (vsFTPd 3.0.3)'' @ CRLF\<rparr>\<rparr>) =
     Continue (exampleServer\<lparr>origin := exampleConn\<lparr>incoming := []\<rparr>,
                 clientOut := [''220 FTP proxy ready'' @ CRLF]\<rparr>)"
  using welcome_replacement [of "exampleServer\<lparr>origin := exampleConn\<lparr>incoming := ''220 (vsFTPd 3.0.3)'' @ CRLF\<rparr>\<rparr>"
      "''220 (vsFTPd 3.0.3)'' @ CRLF" "[]"]
  by (simp add: readLine_def HasPrefix_def exampleServer_def exampleConn_def exampleConfig_def)

subsection \<open>Rewriting the reply to PASV\<close>

lemma HasPrefix_227:
  assumes "HasPrefix line ''227 ''"
  shows "\<not> HasPrefix line ''229 ''" "\<not> HasPrefix line ''200 PORT command successful''"
    "hd (getCode line) = ''227''"
proof -
  from assms obtain t where l: "line = ''227 '' @ t" by (auto simp: HasPrefix_append)
  then show "\<not> HasPrefix line ''229 ''" "\<not> HasPrefix line ''200 PORT command successful''"
    by (simp_all add: HasPrefix_def)
  from l show "hd (getCode line) = ''227''" by (simp add: getCode_three isCRLF_def)
qed

lemma pasvLine_single: "\<not> (4 \<le> length (pasvLine ip p) \<and> pasvLine ip p ! 3 = CHR ''-'')"
  by (simp add: pasvLine_def)

text \<open>
  C9. With the data-channel proxy enabled, the connection switched and the
  recorded client mode \<^verbatim>\<open>PASV\<close>, a reply line from origin that starts with
  \<^verbatim>\<open>"227 "\<close> is rewritten before it reaches the gate of the pump: the buffer
  handed on advertises \<open>MasqueradeIP\<close> with its dots replaced by commas,
  followed by the two numbers \<open>p div 256\<close> and \<open>p mod 256\<close> of the listener
  port \<open>p\<close> in decimal, and these two numbers give the port back:
  \<open>(p div 256) * 256 + p mod 256 = p\<close>. The origin's line is passed to
  \<^verbatim>\<open>parsePASVresponse\<close> and a data transfer is started. As for every reply, the
  line is first subject to the \<^verbatim>\<open>500 PROXY\<close> filter, and the rewritten buffer
  is written to the client when \<open>passThrough\<close> is true.
\<close>

theorem pasv_rewrite:
  assumes "DataChanProxy (config s)" and "isSwitched s"
    and "dataConnector s = Some d" and "mode d = ''PASV''" and "listenerPort d = Some p"
    and "readLine (origin s) = Some (line, rest)"
    and "HasPrefix line ''227 ''"
    and "\<not> (ProxyProtocol (config s) \<and> Contains line ''500 PROXY'')"
  shows "pumpOnce s =
           Continue (deliver
             (s\<lparr>isDataCommandResponse := True, origin := (origin s)\<lparr>incoming := rest\<rparr>,
                dataConnector := Some (d\<lparr>pasvResponses := pasvResponses d @ [line],
                                         transfersStarted := Suc (transfersStarted d)\<rparr>)\<rparr>)
             (''227 Entering Passive Mode ('' @ dotsToCommas (MasqueradeIP (config s)) @ '','' @
                Itoa (p div 256) @ '','' @ Itoa (p mod 256) @ '').'' @ CRLF)) \<and>
         (p div 256) * 256 + p mod 256 = p"
proof -
  let ?s1 = "setIncoming (s\<lparr>isDataCommandResponse := False\<rparr>) rest"
  let ?s2 = "s\<lparr>isDataCommandResponse := True, origin := (origin s)\<lparr>incoming := rest\<rparr>,
                dataConnector := Some (d\<lparr>pasvResponses := pasvResponses d @ [line],
                                         transfersStarted := Suc (transfersStarted d)\<rparr>)\<rparr>"
  have w: "welcomeReplace s line = line"
    using assms(2) by (simp add: welcomeReplace_def)
  have d: "dataRewrite ?s1 (welcomeReplace s line) = Some (?s2, pasvLine (MasqueradeIP (config s)) p)"
    using assms(1-5,7) HasPrefix_227 [OF assms(7)]
    by (simp add: w dataRewrite_def setIncoming_def Let_def)
  have "pumpOnce s = Continue (deliver ?s2 (pasvLine (MasqueradeIP (config s)) p))"
    using assms(8) by (intro pumpOnce_single [OF assms(6) _ d pasvLine_single]) (simp add: w)
  then show ?thesis by (simp add: pasvLine_def)
qed

definition examplePasvServer :: proxyServer where
  "examplePasvServer =
     exampleServer\<lparr>isSwitched := True, config := exampleConfig\<lparr>DataChanProxy := True\<rparr>,
       dataConnector := Some \<lparr>mode = ''PASV'', listenerPort = Some 49999, inUse = True,
         handlerClosed = False, transfersStarted = 0, pasvResponses = [], epsvResponses = []\<rparr>,
       origin := exampleConn\<lparr>incoming := ''227 Entering Passive Mode (10,0,0,7,195,80)'' @ CRLF\<rparr>\<rparr>"

lemma Itoa_195: "Itoa 195 = ''195''"
  by code_simp

lemma Itoa_79: "Itoa 79 = ''79''"
  by code_simp

theorem pasv_rewrite_witness:
  "clientOut (stateOf (pumpOnce examplePasvServer)) =
     [''227 Entering Passive Mode (198,51,100,9,195,79).'' @ CRLF] \<and>
   (195::nat) * 256 + 79 = 49999"
  using pasv_rewrite [of examplePasvServer
      "\<lparr>mode = ''PASV'', listenerPort = Some 49999, inUse = True,
         handlerClosed = False, transfersStarted = 0, pasvResponses = [], epsvResponses = []\<rparr>"
      49999 "''227 Entering Passive Mode (10,0,0,7,195,80)'' @ CRLF" "[]"]
  by (simp add: examplePasvServer_def exampleServer_def exampleConn_def exampleConfig_def
      readLine_def HasPrefix_def deliver_def dotsToCommas_def Itoa_195 Itoa_79)

subsection \<open>The filter for \<^verbatim>\<open>500 PROXY\<close> replies\<close>

lemma HasPrefix_500:
  assumes "HasPrefix line ''500 ''"
  shows "\<not> HasPrefix line ''227 ''" "\<not> HasPrefix line ''229 ''"
    "\<not> HasPrefix line ''200 PORT command successful''"
    "hd (getCode line) = ''500''" "\<not> (4 \<le> length line \<and> line ! 3 = CHR ''-'')"
proof -
  from assms obtain t where l: "line = ''500 '' @ t" by (auto simp: HasPrefix_append)
  then show "\<not> HasPrefix line ''227 ''" "\<not> HasPrefix line ''229 ''"
    "\<not> HasPrefix line ''200 PORT command successful''" "\<not> (4 \<le> length line \<and> line ! 3 = CHR ''-'')"
    by (simp_all add: HasPrefix_def)
  from l show "hd (getCode line) = ''500''" by (simp add: getCode_three isCRLF_def)
qed

lemma pumpOnce_filter_off:
  assumes "\<not> ProxyProtocol (config s)" "passThrough s" "readLine (origin s) = Some (line, rest)"
  shows "(\<exists>e s'. pumpOnce s = Ended e s') \<or>
         (\<exists>buff. clientOut (stateOf (pumpOnce s)) = clientOut s @ [buff])"
  using assms
  by (auto simp: pumpOnce_def Let_def setIncoming_fields deliver_def
      split: option.splits multiRead.splits dest: dataRewrite_fields)

lemma pumpOnce_500_filter_off:
  assumes "\<not> ProxyProtocol (config s)" "readLine (origin s) = Some (line, rest)"
    "HasPrefix line ''500 ''"
  shows "pumpOnce s =
           Continue (deliver (s\<lparr>isDataCommandResponse := False, origin := (origin s)\<lparr>incoming := rest\<rparr>\<rparr>) line)"
proof -
  let ?s1 = "setIncoming (s\<lparr>isDataCommandResponse := False\<rparr>) rest"
  note p = HasPrefix_500 [OF assms(3)]
  have w: "welcomeReplace s line = line" using p(4) by (simp add: welcomeReplace_def)
  have d: "dataRewrite ?s1 (welcomeReplace s line) = Some (?s1, line)"
    using p(1-3) by (simp add: w dataRewrite_def Let_def)
  have "pumpOnce s = Continue (deliver ?s1 line)"
    using assms(1) by (intro pumpOnce_single [OF assms(2) _ d p(5)]) simp
  then show ?thesis by (simp add: setIncoming_def)
qed

lemma pumpOnce_500_filter_on:
  assumes "ProxyProtocol (config s)" "readLine (origin s) = Some (line, rest)"
    "Contains line ''500 PROXY''" "hd (getCode line) = ''220'' \<longrightarrow> isSwitched s"
  shows "pumpOnce s = Continue (s\<lparr>isDataCommandResponse := False, origin := (origin s)\<lparr>incoming := rest\<rparr>\<rparr>)"
proof -
  have w: "welcomeReplace s line = line" using assms(4) by (auto simp: welcomeReplace_def)
  show ?thesis
    using pumpOnce_dropped [OF assms(2) assms(1)] assms(3) by (simp add: w setIncoming_def)
qed

lemma authReply_skip:
  assumes "ReadString inp = Some (str, rest)" "Contains str ''500 PROXY''" "hd (getCode str) \<noteq> ''234''"
  shows "authReply True inp = authReply True rest"
  using assms by (simp add: authReply.simps [of True inp] Let_def)

lemma authReply_refused:
  assumes "ReadString inp = Some (str, rest)" "hd (getCode str) \<noteq> ''234''"
    "\<not> (proxyProtocol \<and> Contains str ''500 PROXY'')"
  shows "authReply proxyProtocol inp = Some (Some (hd (getCode str)), rest)"
  using assms by (auto simp: authReply.simps [of proxyProtocol inp] Let_def)


text \<open>
  C8, as the code has it. With \<open>ProxyProtocol\<close> enabled, a line containing
  \<^verbatim>\<open>500 PROXY\<close> that the reply pump reads at the top of its loop (and that is not
  replaced by the welcome message) is dropped: nothing is handed to the client
  and the loop goes on with the bytes after the line; and while an \<^verbatim>\<open>AUTH\<close>
  command is replayed, a reply containing \<^verbatim>\<open>500 PROXY\<close> whose code is not 234
  is skipped and the next reply is read. With \<open>ProxyProtocol\<close> disabled the
  pump drops no line (a pass with an open gate ends the loop or hands a buffer
  to the client; a line starting with \<^verbatim>\<open>"500 "\<close> is handed on as it is), and a
  reply to \<^verbatim>\<open>AUTH\<close> with a code other than 234 is a refusal. The lines that the
  pump appends to a multi-line block and the replies to other replayed commands
  are not tested.
\<close>

theorem proxy_500_filter:
  "(ProxyProtocol (config s) \<and> readLine (origin s) = Some (line, rest) \<and>
    Contains line ''500 PROXY'' \<and> (hd (getCode line) = ''220'' \<longrightarrow> isSwitched s) \<longrightarrow>
      pumpOnce s = Continue (s\<lparr>isDataCommandResponse := False, origin := (origin s)\<lparr>incoming := rest\<rparr>\<rparr>)) \<and>
   (ReadString inp = Some (str, rest') \<and> Contains str ''500 PROXY'' \<and> hd (getCode str) \<noteq> ''234'' \<longrightarrow>
      authReply True inp = authReply True rest') \<and>
   (\<not> ProxyProtocol (config s) \<and> passThrough s \<and> readLine (origin s) = Some (line, rest) \<longrightarrow>
      (\<exists>e s'. pumpOnce s = Ended e s') \<or>
      (\<exists>buff. clientOut (stateOf (pumpOnce s)) = clientOut s @ [buff])) \<and>
   (\<not> ProxyProtocol (config s) \<and> readLine (origin s) = Some (line, rest) \<and> HasPrefix line ''500 '' \<longrightarrow>
      pumpOnce s =
        Continue (deliver (s\<lparr>isDataCommandResponse := False, origin := (origin s)\<lparr>incoming := rest\<rparr>\<rparr>) line)) \<and>
   (ReadString inp = Some (str, rest') \<and> hd (getCode str) \<noteq> ''234'' \<longrightarrow>
      authReply False inp = Some (Some (hd (getCode str)), rest'))"
proof (intro conjI impI)
  assume "ProxyProtocol (config s) \<and> readLine (origin s) = Some (line, rest) \<and>
    Contains line ''500 PROXY'' \<and> (hd (getCode line) = ''220'' \<longrightarrow> isSwitched s)"
  then show "pumpOnce s = Continue (s\<lparr>isDataCommandResponse := False, origin := (origin s)\<lparr>incoming := rest\<rparr>\<rparr>)"
    by (intro pumpOnce_500_filter_on) blast+
next
  assume "ReadString inp = Some (str, rest') \<and> Contains str ''500 PROXY'' \<and> hd (getCode str) \<noteq> ''234''"
  then show "authReply True inp = authReply True rest'"
    by (intro authReply_skip [of inp str rest']) blast+
next
  assume "\<not> ProxyProtocol (config s) \<and> passThrough s \<and> readLine (origin s) = Some (line, rest)"
  then show "(\<exists>e s'. pumpOnce s = Ended e s') \<or>
      (\<exists>buff. clientOut (stateOf (pumpOnce s)) = clientOut s @ [buff])"
    by (intro pumpOnce_filter_off [of s line rest]) blast+
next
  assume "\<not> ProxyProtocol (config s) \<and> readLine (origin s) = Some (line, rest) \<and> HasPrefix line ''500 ''"
  then show "pumpOnce s =
        Continue (deliver (s\<lparr>isDataCommandResponse := False, origin := (origin s)\<lparr>incoming := rest\<rparr>\<rparr>) line)"
    by (intro pumpOnce_500_filter_off) blast+
next
  assume "ReadString inp = Some (str, rest') \<and> hd (getCode str) \<noteq> ''234''"
  then show "authReply False inp = Some (Some (hd (getCode str)), rest')"
    by (intro authReply_refused) auto
qed

definition exampleProxyProtocolServer :: proxyServer where
  "exampleProxyProtocolServer = exampleServer\<lparr>config := exampleConfig\<lparr>ProxyProtocol := True\<rparr>\<rparr>"

theorem proxy_500_filter_witness:
  "pumpOnce (exampleProxyProtocolServer\<lparr>origin := exampleConn\<lparr>incoming :=
       ''500 PROXY not understood'' @ CRLF @ ''331 Password required'' @ CRLF\<rparr>\<rparr>) =
     Continue (exampleProxyProtocolServer\<lparr>origin := exampleConn\<lparr>incoming := ''331 Password required'' @ CRLF\<rparr>\<rparr>) \<and>
   pumpOnce (exampleServer\<lparr>origin := exampleConn\<lparr>incoming :=
       ''500 PROXY not understood'' @ CRLF @ ''331 Password required'' @ CRLF\<rparr>\<rparr>) =
     Continue (exampleServer\<lparr>origin := exampleConn\<lparr>incoming := ''331 Password required'' @ CRLF\<rparr>,
                 clientOut := [''500 PROXY not understood'' @ CRLF]\<rparr>)"
  using proxy_500_filter [of
      "exampleProxyProtocolServer\<lparr>origin := exampleConn\<lparr>incoming :=
         ''500 PROXY not understood'' @ CRLF @ ''331 Password required'' @ CRLF\<rparr>\<rparr>"
      "''500 PROXY not understood'' @ CRLF" "''331 Password required'' @ CRLF" "[]" "[]" "[]"]
    proxy_500_filter [of
      "exampleServer\<lparr>origin := exampleConn\<lparr>incoming :=
         ''500 PROXY not understood'' @ CRLF @ ''331 Password required'' @ CRLF\<rparr>\<rparr>"
      "''500 PROXY not understood'' @ CRLF" "''331 Password required'' @ CRLF" "[]" "[]" "[]"]
  by (simp add: exampleProxyProtocolServer_def exampleServer_def exampleConn_def exampleConfig_def
      readLine_def HasPrefix_def deliver_def getCode_three isCRLF_def)

theorem proxy_500_forwarded_counterexample:
  "ProxyProtocol (config exampleProxyProtocolServer) \<and>
   Contains ('' 500 PROXY'' @ CRLF) ''500 PROXY'' \<and>
   pumpOnce (exampleProxyProtocolServer\<lparr>origin := exampleConn\<lparr>incoming :=
       ''211-Features:'' @ CRLF @ '' 500 PROXY'' @ CRLF @ ''211 End'' @ CRLF\<rparr>\<rparr>) =
     Continue (exampleProxyProtocolServer\<lparr>origin := exampleConn\<lparr>incoming := []\<rparr>,
        clientOut := [''211-Features:'' @ CRLF @ '' 500 PROXY'' @ CRLF @ ''211 End'' @ CRLF]\<rparr>)"
  by code_simp

subsection \<open>Multi-line replies\<close>

text \<open>
  A line as \<^verbatim>\<open>ReadString\<close> returns it: it ends with LF and has no other LF.
  A line ends the block opened with a code when \<^verbatim>\<open>getCode\<close> gives that code
  for it and its fourth byte is a space.
\<close>

definition isLine :: "string \<Rightarrow> bool" where
  "isLine l = (l \<noteq> [] \<and> last l = LF \<and> LF \<notin> set (butlast l))"

definition endsBlock :: "string \<Rightarrow> string \<Rightarrow> bool" where
  "endsBlock code res = (hd (getCode res) = code \<and> 4 \<le> length res \<and> res ! 3 = SP)"

lemma ReadString_isLine: "ReadString inp = Some (line, rest) \<Longrightarrow> isLine line \<and> inp = line @ rest"
proof (induction inp arbitrary: line)
  case Nil
  then show ?case by simp
next
  case (Cons b bs)
  show ?case
  proof (cases "b = LF")
    case True
    with Cons.prems show ?thesis by (auto simp: isLine_def)
  next
    case False
    with Cons.prems obtain l where rs: "ReadString bs = Some (l, rest)" and line: "line = b # l"
      by (auto split: option.splits)
    from Cons.IH [OF rs] have "isLine l" "bs = l @ rest" by simp_all
    with False line show ?thesis by (auto simp: isLine_def)
  qed
qed

lemma ReadString_line: "isLine l \<Longrightarrow> ReadString (l @ xs) = Some (l, xs)"
proof (induction l)
  case Nil
  then show ?case by (simp add: isLine_def)
next
  case (Cons b l)
  show ?case
  proof (cases "l = []")
    case True
    with Cons.prems show ?thesis by (simp add: isLine_def)
  next
    case False
    with Cons.prems have "isLine l" "b \<noteq> LF" by (auto simp: isLine_def)
    with Cons.IH show ?thesis by simp
  qed
qed

lemma Trim_around:
  assumes "\<not> isCRLF d"
  shows "Trim (pre @ d # u) = dropWhile isCRLF pre @ d # rev (dropWhile isCRLF (rev u))"
proof -
  have "dropWhile isCRLF (pre @ d # u) = dropWhile isCRLF pre @ d # u"
    using assms by (simp add: dropWhile_append_keep)
  then have "Trim (pre @ d # u) = rev (dropWhile isCRLF (rev u @ d # rev (dropWhile isCRLF pre)))"
    by (simp add: Trim_def)
  also have "\<dots> = rev (dropWhile isCRLF (rev u) @ d # rev (dropWhile isCRLF pre))"
    using assms by (simp add: dropWhile_append_keep)
  finally show ?thesis by simp
qed

lemma cutFirst_byte:
  "cutFirst s [d] =
     (if d \<in> set s then Some (takeWhile (\<lambda>x. x \<noteq> d) s, tl (dropWhile (\<lambda>x. x \<noteq> d) s)) else None)"
  by (induction s) (auto simp: HasPrefix_def)

lemma takeWhile_absent: "d \<notin> set s \<Longrightarrow> takeWhile (\<lambda>x. x \<noteq> d) s = s"
  by (induction s) auto

lemma hd_SplitN2_byte: "hd (SplitN2 s [d]) = takeWhile (\<lambda>x. x \<noteq> d) s"
  by (simp add: SplitN2_def cutFirst_byte takeWhile_absent)

lemma getCode_sep:
  assumes "4 \<le> length l" "l ! 3 = d" "(of_char d :: nat) < 128" "\<not> isCRLF d"
  shows "hd (getCode l) = takeWhile (\<lambda>x. x \<noteq> d) (dropWhile isCRLF (take 3 l))"
proof -
  have l: "l = take 3 l @ d # drop 4 l"
    using assms(1,2) id_take_nth_drop [of 3 l] by simp
  have "Trim l = dropWhile isCRLF (take 3 l) @ d # rev (dropWhile isCRLF (rev (drop 4 l)))"
    using Trim_around [OF assms(4), of "take 3 l" "drop 4 l"] l by simp
  moreover have "stringOfByte d = [d]" using assms(3) by (simp add: stringOfByte_def)
  ultimately show ?thesis
    using assms(1,2) by (simp add: getCode_def hd_SplitN2_byte takeWhile_tail)
qed

lemma length_split_While: "length (takeWhile q xs) + length (dropWhile q xs) = length xs"
  by (induction xs) auto

lemma takeWhile_dropWhile_full:
  assumes "length (takeWhile p (dropWhile q xs)) = length xs"
  shows "takeWhile p (dropWhile q xs) = xs"
proof -
  have a: "length (takeWhile p (dropWhile q xs)) \<le> length (dropWhile q xs)"
    by (rule length_takeWhile_le)
  have b: "length (dropWhile q xs) \<le> length xs" by (rule length_dropWhile_le)
  from assms a b have "length (dropWhile q xs) = length xs" by simp
  with length_split_While [of q xs] have "takeWhile q xs = []" by simp
  with takeWhile_dropWhile_id [of q xs] have d: "dropWhile q xs = xs" by simp
  from assms d have "length (takeWhile p xs) = length xs" by simp
  with length_split_While [of p xs] have "dropWhile p xs = []" by simp
  with takeWhile_dropWhile_id [of p xs] d show ?thesis by simp
qed

lemma digit_not_sep: "isDigit c \<Longrightarrow> \<not> isCRLF c \<and> c \<noteq> SP \<and> c \<noteq> CHR ''-''"
  by (auto simp: isDigit_def isCRLF_def)

lemma getCode_digits:
  assumes "4 \<le> length l" "l ! 3 = SP \<or> l ! 3 = CHR ''-''" "\<forall>c\<in>set (take 3 l). isDigit c"
  shows "hd (getCode l) = take 3 l"
proof -
  have sep: "(of_char (l ! 3) :: nat) < 128" "\<not> isCRLF (l ! 3)"
    using assms(2) by (auto simp: isCRLF_def)
  have "dropWhile isCRLF (take 3 l) = take 3 l"
    using assms(3) digit_not_sep by (cases "take 3 l") auto
  moreover have "takeWhile (\<lambda>x. x \<noteq> l ! 3) (take 3 l) = take 3 l"
    using assms(2,3) digit_not_sep by (auto simp: takeWhile_eq_all_conv)
  ultimately show ?thesis using getCode_sep [OF assms(1) refl sep] by simp
qed

lemma endsBlock_digits:
  assumes "length code = 3" "\<forall>c\<in>set code. isDigit c"
  shows "endsBlock code res \<longleftrightarrow> (4 \<le> length res \<and> take 3 res = code \<and> res ! 3 = SP)"
proof
  assume e: "endsBlock code res"
  then have len: "4 \<le> length res" and sp: "res ! 3 = SP" and c: "hd (getCode res) = code"
    by (simp_all add: endsBlock_def)
  have "hd (getCode res) = takeWhile (\<lambda>x. x \<noteq> SP) (dropWhile isCRLF (take 3 res))"
    using getCode_sep [OF len sp] by (simp add: isCRLF_def)
  with c assms(1) len
  have "length (takeWhile (\<lambda>x. x \<noteq> SP) (dropWhile isCRLF (take 3 res))) = length (take 3 res)"
    by simp
  then have "takeWhile (\<lambda>x. x \<noteq> SP) (dropWhile isCRLF (take 3 res)) = take 3 res"
    by (rule takeWhile_dropWhile_full)
  with c \<open>hd (getCode res) = takeWhile (\<lambda>x. x \<noteq> SP) (dropWhile isCRLF (take 3 res))\<close>
  have "take 3 res = code" by simp
  with len sp show "4 \<le> length res \<and> take 3 res = code \<and> res ! 3 = SP" by simp
next
  assume r: "4 \<le> length res \<and> take 3 res = code \<and> res ! 3 = SP"
  then have "hd (getCode res) = take 3 res"
    using assms(2) by (intro getCode_digits) auto
  with r show "endsBlock code res" by (simp add: endsBlock_def)
qed

lemma opener_code_no_LF:
  assumes "isLine line" "4 \<le> length line" "line ! 3 = CHR ''-''"
  shows "LF \<notin> set (hd (getCode line))"
proof -
  have "hd (getCode line) = takeWhile (\<lambda>x. x \<noteq> CHR ''-'') (dropWhile isCRLF (take 3 line))"
    using getCode_sep [OF assms(2,3)] by (simp add: isCRLF_def)
  then have "set (hd (getCode line)) \<subseteq> set (take 3 line)"
    by (auto dest: set_takeWhileD set_dropWhileD)
  moreover have "take 3 line = take 3 (butlast line)"
    using assms(2) by (simp add: take_butlast)
  then have "set (take 3 line) \<subseteq> set (butlast line)"
    by (metis set_take_subset)
  ultimately show ?thesis using assms(1) by (auto simp: isLine_def)
qed

lemma short_line_code:
  assumes "isLine l" "length l < 4" "LF \<notin> set code"
  shows "hd (getCode l) \<noteq> code"
proof -
  from assms(1) have "LF \<in> set l" using last_in_set [of l] by (auto simp: isLine_def)
  moreover from assms(2) have "hd (getCode l) = l" by (simp add: getCode_def)
  ultimately show ?thesis using assms(3) by auto
qed

lemma readMulti_block:
  assumes "LF \<notin> set code"
    and "\<forall>l\<in>set middle. isLine l \<and> \<not> endsBlock code l"
    and "isLine t" "endsBlock code t"
  shows "readMulti code acc (concat middle @ t @ rest) = MultiDone (acc @ concat middle @ t) rest"
  using assms(2)
proof (induction middle arbitrary: acc)
  case Nil
  have "ReadString (t @ rest) = Some (t, rest)" using assms(3) by (rule ReadString_line)
  with assms(4) show ?case
    by (simp add: readMulti.simps [of code acc "t @ rest"] endsBlock_def)
next
  case (Cons l middle)
  then have l: "isLine l" "\<not> endsBlock code l" and middle: "\<forall>l\<in>set middle. isLine l \<and> \<not> endsBlock code l"
    by simp_all
  have rd: "ReadString (l @ concat middle @ t @ rest) = Some (l, concat middle @ t @ rest)"
    using l(1) by (rule ReadString_line)
  have goon: "readMulti code acc (l @ concat middle @ t @ rest) =
              readMulti code (acc @ l) (concat middle @ t @ rest)"
  proof (cases "hd (getCode l) = code")
    case False
    with rd show ?thesis by (simp add: readMulti.simps [of code acc "l @ concat middle @ t @ rest"])
  next
    case True
    with short_line_code [OF l(1) _ assms(1)] have len: "\<not> length l < 4" by auto
    with True l(2) have "l ! 3 \<noteq> SP" by (auto simp: endsBlock_def)
    with rd True len show ?thesis
      by (simp add: readMulti.simps [of code acc "l @ concat middle @ t @ rest"])
  qed
  with Cons.IH [OF middle, of "acc @ l"] show ?case by simp
qed

lemma dataRewrite_opener:
  assumes "4 \<le> length buff" "buff ! 3 = CHR ''-''"
  shows "dataRewrite s buff = Some (s, buff)"
proof -
  have "\<not> HasPrefix buff ''227 ''" "\<not> HasPrefix buff ''229 ''"
    "\<not> HasPrefix buff ''200 PORT command successful''"
    using assms(2) by (auto simp: HasPrefix_append)
  then show ?thesis by (simp add: dataRewrite_def)
qed

text \<open>
  C3, as the code has it. A reply line of at least four bytes whose fourth byte
  is a hyphen, and that reaches the multi-line handling (it is not a line with
  code 220 on a connection not yet switched, which is replaced by the welcome
  message, and it is not dropped by the \<^verbatim>\<open>500 PROXY\<close> filter), opens a
  multi-line block: the pump reads on, appending the lines in order, up to and
  including the first line for which \<^verbatim>\<open>getCode\<close> gives the opener's code and
  whose fourth byte is a space, and hands the whole block to the gate as one
  buffer. For an opener that starts with three digits, the closing line is a
  line that starts with the same three digits followed by a space.
\<close>

theorem multi_line_block:
  assumes "readLine (origin s) = Some (line, concat middle @ t @ rest)"
    and "4 \<le> length line" and "line ! 3 = CHR ''-''"
    and "hd (getCode line) = ''220'' \<longrightarrow> isSwitched s"
    and "\<not> (ProxyProtocol (config s) \<and> Contains line ''500 PROXY'')"
    and "\<forall>l\<in>set middle. isLine l \<and> \<not> endsBlock (hd (getCode line)) l"
    and "isLine t" and "endsBlock (hd (getCode line)) t"
  shows "pumpOnce s =
           Continue (deliver (s\<lparr>isDataCommandResponse := False, origin := (origin s)\<lparr>incoming := rest\<rparr>\<rparr>)
                       (line @ concat middle @ t)) \<and>
         ((\<forall>c\<in>set (take 3 line). isDigit c) \<longrightarrow>
            (\<forall>res. endsBlock (hd (getCode line)) res \<longleftrightarrow>
                     (4 \<le> length res \<and> take 3 res = take 3 line \<and> res ! 3 = SP)))"
proof
  let ?s1 = "setIncoming (s\<lparr>isDataCommandResponse := False\<rparr>) (concat middle @ t @ rest)"
  have w: "welcomeReplace s line = line" using assms(4) by (auto simp: welcomeReplace_def)
  have d: "dataRewrite ?s1 (welcomeReplace s line) = Some (?s1, line)"
    using dataRewrite_opener [OF assms(2,3)] by (simp add: w)
  have "isLine line"
    using assms(1) by (auto simp: readLine_def split: if_splits dest: ReadString_isLine)
  then have nolf: "LF \<notin> set (hd (getCode line))" using assms(2,3) by (rule opener_code_no_LF)
  have "readMulti (hd (getCode line)) line (concat middle @ t @ rest) = MultiDone (line @ concat middle @ t) rest"
    using nolf assms(6,7,8) by (rule readMulti_block)
  then have m: "readMulti (hd (getCode line)) line (incoming (origin ?s1)) = MultiDone (line @ concat middle @ t) rest"
    by (simp add: setIncoming_def)
  have "pumpOnce s = Continue (deliver (setIncoming ?s1 rest) (line @ concat middle @ t))"
    using assms(5) by (intro pumpOnce_multi [OF assms(1) _ d assms(2,3) m]) (simp add: w)
  then show "pumpOnce s =
           Continue (deliver (s\<lparr>isDataCommandResponse := False, origin := (origin s)\<lparr>incoming := rest\<rparr>\<rparr>)
                       (line @ concat middle @ t))"
    by (simp add: setIncoming_def)
next
  show "(\<forall>c\<in>set (take 3 line). isDigit c) \<longrightarrow>
            (\<forall>res. endsBlock (hd (getCode line)) res \<longleftrightarrow>
                     (4 \<le> length res \<and> take 3 res = take 3 line \<and> res ! 3 = SP))"
  proof (intro impI allI)
    fix res
    assume dg: "\<forall>c\<in>set (take 3 line). isDigit c"
    have "hd (getCode line) = take 3 line"
      using assms(2,3) dg by (intro getCode_digits) auto
    moreover have "length (take 3 line) = 3" using assms(2) by simp
    ultimately show "endsBlock (hd (getCode line)) res \<longleftrightarrow>
                     (4 \<le> length res \<and> take 3 res = take 3 line \<and> res ! 3 = SP)"
      using endsBlock_digits [of "take 3 line" res] dg by simp
  qed
qed

theorem multi_line_block_witness:
  "pumpOnce (exampleServer\<lparr>origin := exampleConn\<lparr>incoming :=
       ''211-Features:'' @ CRLF @ '' MDTM'' @ CRLF @ ''211 End'' @ CRLF @ ''230 Logged in'' @ CRLF\<rparr>\<rparr>) =
     Continue (exampleServer\<lparr>origin := exampleConn\<lparr>incoming := ''230 Logged in'' @ CRLF\<rparr>,
        clientOut := [''211-Features:'' @ CRLF @ '' MDTM'' @ CRLF @ ''211 End'' @ CRLF]\<rparr>)"
  using multi_line_block [of
      "exampleServer\<lparr>origin := exampleConn\<lparr>incoming :=
         ''211-Features:'' @ CRLF @ '' MDTM'' @ CRLF @ ''211 End'' @ CRLF @ ''230 Logged in'' @ CRLF\<rparr>\<rparr>"
      "''211-Features:'' @ CRLF" "['' MDTM'' @ CRLF]" "''211 End'' @ CRLF" "''230 Logged in'' @ CRLF"]
  by (simp add: exampleServer_def exampleConn_def exampleConfig_def readLine_def deliver_def
      isLine_def endsBlock_def getCode_def Trim_def isCRLF_def SplitN2_def stringOfByte_def
      HasPrefix_def)

theorem multi_line_welcome_counterexample:
  "4 \<le> length (''220-Welcome'' @ CRLF) \<and> (''220-Welcome'' @ CRLF) ! 3 = CHR ''-'' \<and>
   pumpOnce (exampleServer\<lparr>origin := exampleConn\<lparr>incoming := ''220-Welcome'' @ CRLF @ ''220 ready'' @ CRLF\<rparr>\<rparr>) =
     Continue (exampleServer\<lparr>origin := exampleConn\<lparr>incoming := ''220 ready'' @ CRLF\<rparr>,
        clientOut := [''220 FTP proxy ready'' @ CRLF]\<rparr>) \<and>
   clientOut (snd (pump (exampleServer\<lparr>origin := exampleConn\<lparr>incoming :=
       ''220-Welcome'' @ CRLF @ ''220 ready'' @ CRLF\<rparr>\<rparr>))) =
     [''220 FTP proxy ready'' @ CRLF, ''220 FTP proxy ready'' @ CRLF]"
  by code_simp

section \<open>Properties of the TLS replay\<close>











section \<open>The welcome line of the new origin\<close>

lemma setIncoming_twice [simp]: "setIncoming (setIncoming s a) b = setIncoming s b"
  by (simp add: setIncoming_def)

lemma welcomeAndTLS_first_line:
  assumes "ReadString (incoming (origin s)) = Some (res, rest)" "ReadString inp = Some (res', rest)"
  shows "welcomeAndTLS suspended (setIncoming s inp) v cmds = welcomeAndTLS suspended s v cmds"
  using assms by (simp add: welcomeAndTLS_def readLine_def setIncoming_def tune_def)

lemma sendProxyHeader_setIncoming:
  "sendProxyHeader net (setIncoming s inp) clientAddr originAddr =
     (case sendProxyHeader net s clientAddr originAddr of
        None \<Rightarrow> None
      | Some (e, s') \<Rightarrow> Some (e, setIncoming s' inp))"
  by (simp add: sendProxyHeader_def setIncoming_def Let_def)

lemma sendProxyHeader_incoming:
  "sendProxyHeader net s clientAddr originAddr = Some (e, s') \<Longrightarrow>
   incoming (origin s') = incoming (origin s)"
  by (auto simp: sendProxyHeader_def Let_def split: if_splits)

lemma finishSwitch_setIncoming:
  "finishSwitch suspended r (setIncoming s inp) = setIncoming (finishSwitch suspended r s) inp"
  by (simp add: finishSwitch_def setIncoming_def unsuspend_def Let_def)

lemma bindNewOrigin_first_line:
  assumes "dial net originAddr = Inr c" "ReadString (incoming c) = Some (res, rest)"
    and "ReadString inp = Some (res', rest)"
    and "dial net' originAddr = Inr (c\<lparr>incoming := inp\<rparr>)"
    and "lookupFails net' = lookupFails net" "headerBytes net' = headerBytes net"
  shows "fst (bindNewOrigin net' suspended s clientAddr originAddr v cmds) =
         fst (bindNewOrigin net suspended s clientAddr originAddr v cmds)"
proof -
  let ?s' = "s\<lparr>origin := c, originNil := False\<rparr>"
  have new: "s\<lparr>origin := c\<lparr>incoming := inp\<rparr>, originNil := False\<rparr> = setIncoming ?s' inp"
    by (simp add: setIncoming_def)
  have rd: "ReadString (incoming (origin ?s')) = Some (res, rest)" using assms(2) by simp
  have hdr: "sendProxyHeader net' (setIncoming ?s' inp) clientAddr originAddr =
     (case sendProxyHeader net ?s' clientAddr originAddr of
        None \<Rightarrow> None
      | Some (e, s'') \<Rightarrow> Some (e, setIncoming s'' inp))"
    using assms(5,6) by (simp add: sendProxyHeader_def setIncoming_def Let_def)
  show ?thesis
  proof (cases "ProxyProtocol (config s)")
    case False
    with assms(1,4) new welcomeAndTLS_first_line [OF rd assms(3)] show ?thesis
      by (simp add: bindNewOrigin_def Let_def setIncoming_fields)
  next
    case True
    show ?thesis
    proof (cases "sendProxyHeader net ?s' clientAddr originAddr")
      case None
      with True assms(1,4) new hdr show ?thesis
        by (simp add: bindNewOrigin_def Let_def setIncoming_fields)
    next
      case (Some r)
      obtain e s'' where r: "r = (e, s'')" by (cases r)
      show ?thesis
      proof (cases e)
        case (Some err)
        with True assms(1,4) new hdr \<open>sendProxyHeader net ?s' clientAddr originAddr = Some r\<close> r
        show ?thesis by (simp add: bindNewOrigin_def Let_def setIncoming_fields)
      next
        case None
        have "ReadString (incoming (origin s'')) = Some (res, rest)"
          using sendProxyHeader_incoming [of net ?s' clientAddr originAddr e s''] Some r rd by simp
        from welcomeAndTLS_first_line [OF this assms(3)]
          True assms(1,4) new hdr Some r None
        show ?thesis by (simp add: bindNewOrigin_def Let_def setIncoming_fields)
      qed
    qed
  qed
qed

lemma switchOrigin_first_line:
  assumes "dial net originAddr = Inr c" "ReadString (incoming c) = Some (res, rest)"
    and "isLine res'"
  shows "fst (switchOrigin (net\<lparr>dial := (dial net)(originAddr := Inr (c\<lparr>incoming := res' @ rest\<rparr>))\<rparr>)
                s clientAddr originAddr v cmds) =
         fst (switchOrigin net s clientAddr originAddr v cmds)"
proof -
  let ?net' = "net\<lparr>dial := (dial net)(originAddr := Inr (c\<lparr>incoming := res' @ rest\<rparr>))\<rparr>"
  have rd': "ReadString (res' @ rest) = Some (res', rest)" using assms(3) by (rule ReadString_line)
  have "\<And>suspended s. fst (bindNewOrigin ?net' suspended s clientAddr originAddr v cmds) =
         fst (bindNewOrigin net suspended s clientAddr originAddr v cmds)"
    by (rule bindNewOrigin_first_line [OF assms(1,2) rd']) simp_all
  then show ?thesis by (simp add: switchOrigin_def Let_def)
qed

lemma switchOrigin_reaches_welcome:
  assumes "originAddr \<noteq> []" "\<not> isSwitched s" "pumpRunning s" "\<not> ProxyProtocol (config s)"
    and "dial net originAddr = Inr c"
  shows "switchOrigin net s clientAddr originAddr v cmds =
           welcomeAndTLS (passThrough s)
             ((stopPump (if passThrough s then suspend (s\<lparr>isSwitched := True\<rparr>) else s\<lparr>isSwitched := True\<rparr>))
                \<lparr>origin := c, originNil := False\<rparr>) v cmds"
  using assms
  by (simp add: switchOrigin_def bindNewOrigin_def Let_def suspend_def stopPump_def connectionCloser_def)

lemma welcomeAndTLS_read_fails:
  "readLine (origin s) = None \<Longrightarrow>
   fst (welcomeAndTLS suspended s v cmds) = Returns (Some CannotConnectNewOrigin)"
  by (simp add: welcomeAndTLS_def)

lemma welcomeAndTLS_no_commands:
  "readLine (origin s) = Some (res, rest) \<Longrightarrow>
   welcomeAndTLS suspended s v [] =
     (Returns None, finishSwitch suspended True (s\<lparr>origin := tune (config s) ((origin s)\<lparr>incoming := rest\<rparr>)\<rparr>))"
  by (simp add: welcomeAndTLS_def sendTLSCommand_def)

text \<open>
  C6, as the code has it. During an origin switch, after the new origin is
  dialed (and the PROXY header sent if configured), exactly one line is read
  from the new origin before the connection is tuned and the TLS commands are
  replayed. The line is not inspected: the result of \<^verbatim>\<open>switchOrigin\<close> is the
  same whatever line the new origin sends first. The step fails only when the
  read fails, with the error "cannot connect to new origin server"; with any
  line read and no TLS command to replay the switch succeeds, the bytes after
  the line being left on the tuned connection.
\<close>

theorem switchOrigin_welcome_line:
  "(dial net originAddr = Inr c \<and> ReadString (incoming c) = Some (res, rest) \<and> isLine res' \<longrightarrow>
      fst (switchOrigin (net\<lparr>dial := (dial net)(originAddr := Inr (c\<lparr>incoming := res' @ rest\<rparr>))\<rparr>)
             s clientAddr originAddr v cmds) =
      fst (switchOrigin net s clientAddr originAddr v cmds)) \<and>
   (originAddr \<noteq> [] \<and> \<not> isSwitched s \<and> pumpRunning s \<and> \<not> ProxyProtocol (config s) \<and>
    dial net originAddr = Inr c \<longrightarrow>
      (case readLine c of
         None \<Rightarrow> fst (switchOrigin net s clientAddr originAddr v cmds) = Returns (Some CannotConnectNewOrigin)
       | Some (line, after) \<Rightarrow>
           fst (switchOrigin net s clientAddr originAddr v []) = Returns None \<and>
           origin (snd (switchOrigin net s clientAddr originAddr v [])) =
             tune (config s) (c\<lparr>incoming := after\<rparr>)))"
proof (intro conjI impI)
  assume "dial net originAddr = Inr c \<and> ReadString (incoming c) = Some (res, rest) \<and> isLine res'"
  then show "fst (switchOrigin (net\<lparr>dial := (dial net)(originAddr := Inr (c\<lparr>incoming := res' @ rest\<rparr>))\<rparr>)
             s clientAddr originAddr v cmds) =
      fst (switchOrigin net s clientAddr originAddr v cmds)"
    by (intro switchOrigin_first_line) blast+
next
  assume a: "originAddr \<noteq> [] \<and> \<not> isSwitched s \<and> pumpRunning s \<and> \<not> ProxyProtocol (config s) \<and>
    dial net originAddr = Inr c"
  let ?s4 = "(stopPump (if passThrough s then suspend (s\<lparr>isSwitched := True\<rparr>) else s\<lparr>isSwitched := True\<rparr>))
                \<lparr>origin := c, originNil := False\<rparr>"
  have sw: "\<And>cmds. switchOrigin net s clientAddr originAddr v cmds = welcomeAndTLS (passThrough s) ?s4 v cmds"
    using a by (intro switchOrigin_reaches_welcome) blast+
  have o: "origin ?s4 = c" by simp
  have cf: "config ?s4 = config s" by (simp add: stopPump_def connectionCloser_def suspend_def)
  show "case readLine c of
         None \<Rightarrow> fst (switchOrigin net s clientAddr originAddr v cmds) = Returns (Some CannotConnectNewOrigin)
       | Some (line, after) \<Rightarrow>
           fst (switchOrigin net s clientAddr originAddr v []) = Returns None \<and>
           origin (snd (switchOrigin net s clientAddr originAddr v [])) =
             tune (config s) (c\<lparr>incoming := after\<rparr>)"
  proof (cases "readLine c")
    case None
    then show ?thesis using welcomeAndTLS_read_fails [of ?s4] o by (simp add: sw)
  next
    case (Some r)
    obtain line after where r: "r = (line, after)" by (cases r)
    have "readLine (origin ?s4) = Some (line, after)" using Some r o by simp
    from welcomeAndTLS_no_commands [OF this, of "passThrough s" v] Some r cf
    show ?thesis by (simp add: sw finishSwitch_def unsuspend_def Let_def)
  qed
qed

definition exampleRefusingNetwork :: network where
  "exampleRefusingNetwork =
     exampleNetwork\<lparr>dial := (\<lambda>addr. Inr (exampleConn\<lparr>remoteAddr := addr,
        incoming := ''421 Service not available'' @ CRLF\<rparr>))\<rparr>"

theorem switchOrigin_welcome_line_witness:
  "fst (switchOrigin exampleNetwork exampleServer ''192.0.2.1:4000'' ''10.0.0.7:21'' 771 []) = Returns None \<and>
   incoming (origin (snd (switchOrigin exampleNetwork exampleServer ''192.0.2.1:4000'' ''10.0.0.7:21'' 771 []))) = []"
  using switchOrigin_welcome_line [of exampleNetwork "''10.0.0.7:21''"
      "exampleConn\<lparr>remoteAddr := ''10.0.0.7:21'', incoming := ''220 origin ready'' @ CRLF\<rparr>"
      "[]" "[]" "[]" exampleServer "''192.0.2.1:4000''" 771 "[]"]
  by (simp add: exampleNetwork_def exampleServer_def exampleConn_def exampleConfig_def readLine_def
      tune_def)

theorem switchOrigin_welcome_not_checked_counterexample:
  "hd (getCode (''421 Service not available'' @ CRLF)) = ''421'' \<and>
   fst (switchOrigin exampleRefusingNetwork exampleServer ''192.0.2.1:4000'' ''10.0.0.9:21'' 771 []) =
     Returns None \<and>
   signals (snd (switchOrigin exampleRefusingNetwork exampleServer ''192.0.2.1:4000'' ''10.0.0.9:21'' 771 [])) =
     [StopSent, StopDone, SwitchResult True]"
  by code_simp

end
